theory Spec2Isabelle
  imports Complex_Main
begin

section \<open>Masked multi-head attention (folx.experimental.pallas.mha)\<close>

text \<open>
  A shallow embedding of \<^verbatim>\<open>src/folx/experimental/pallas/mha.py\<close>: the dispatcher
  \<^verbatim>\<open>mha\<close>, the dense kernel \<^verbatim>\<open>reference_mha_kernel\<close> and the per-tile kernel
  \<^verbatim>\<open>mha_kernel\<close>.

  Array elements are real numbers: every arithmetic operation of the kernels is the exact
  one, rounding and the special values of machine floats are not part of the model. The
  element type of an array is carried as a tag (\<open>dtype\<close>), next to its shape.
\<close>

subsection \<open>Arrays\<close>

text \<open>
  The parameter \<^verbatim>\<open>mask\<close> of the source is written \<open>msk\<close> and its local \<^verbatim>\<open>o\<close> is written
  \<open>out\<close>, the parameter \<^verbatim>\<open>kernel\<close> of \<^verbatim>\<open>mha\<close> is written \<open>kern\<close>: \<open>mask\<close>, \<open>o\<close> and \<open>kernel\<close>
  are names of the library.
\<close>

datatype dtype = Float16 | BFloat16 | Float32 | Float64

text \<open>The result type of a jnp operation on two floating arrays (type promotion).\<close>

fun promote_types :: "dtype \<Rightarrow> dtype \<Rightarrow> dtype" where
  "promote_types Float64 _ = Float64"
| "promote_types _ Float64 = Float64"
| "promote_types Float32 _ = Float32"
| "promote_types _ Float32 = Float32"
| "promote_types Float16 Float16 = Float16"
| "promote_types BFloat16 BFloat16 = BFloat16"
| "promote_types Float16 BFloat16 = Float32"
| "promote_types BFloat16 Float16 = Float32"

type_synonym shape4 = "nat \<times> nat \<times> nat \<times> nat"

text \<open>A rank-4 \<^verbatim>\<open>jax.Array\<close>: shape, dtype and the elements as nested lists.\<close>

record array4 =
  shape :: shape4
  dtype :: dtype
  elems :: "real list list list list"

text \<open>The nested lists of an array agree with its shape.\<close>

definition has_shape :: "shape4 \<Rightarrow> 'a list list list list \<Rightarrow> bool" where
  "has_shape sh x =
     (case sh of (d0, d1, d2, d3) \<Rightarrow>
        length x = d0 \<and>
        (\<forall>m \<in> set x. length m = d1 \<and>
           (\<forall>r \<in> set m. length r = d2 \<and> (\<forall>u \<in> set r. length u = d3))))"

text \<open>The mask is a rank-2 boolean array of shape \<open>(batch_len, seq_len)\<close>.\<close>

definition mask_has_shape :: "nat \<times> nat \<Rightarrow> bool list list \<Rightarrow> bool" where
  "mask_has_shape sh msk =
     (case sh of (d0, d1) \<Rightarrow> length msk = d0 \<and> (\<forall>m \<in> set msk. length m = d1))"

text \<open>
  A valid input quadruple: Q, K and V are well-formed floating arrays of one shape
  \<open>(batch_len, seq_len, num_heads, head_len)\<close>, each of any floating dtype, and the mask
  has shape \<open>(batch_len, seq_len)\<close>.
\<close>

definition valid_inputs :: "array4 \<Rightarrow> array4 \<Rightarrow> array4 \<Rightarrow> bool list list \<Rightarrow> bool" where
  "valid_inputs q k v msk =
     (shape k = shape q \<and> shape v = shape q \<and>
      has_shape (shape q) (elems q) \<and> has_shape (shape q) (elems k) \<and>
      has_shape (shape q) (elems v) \<and>
      mask_has_shape (fst (shape q), fst (snd (shape q))) msk)"

text \<open>The nested lists with element \<open>f b i h a\<close> at index \<open>[b, i, h, a]\<close>.\<close>

definition tab4 :: "shape4 \<Rightarrow> (nat \<Rightarrow> nat \<Rightarrow> nat \<Rightarrow> nat \<Rightarrow> 'a) \<Rightarrow> 'a list list list list" where
  "tab4 sh f =
     (case sh of (d0, d1, d2, d3) \<Rightarrow>
        map (\<lambda>b. map (\<lambda>i. map (\<lambda>h. map (\<lambda>a. f b i h a) [0..<d3]) [0..<d2]) [0..<d1]) [0..<d0])"

subsection \<open>The jnp operations of the reference kernel\<close>

text \<open>
  The literal \<^verbatim>\<open>-1e20\<close> that replaces the score of an invalid position pair, as it is
  stored in an array of dtype float32, bfloat16 or float64. The largest float16 is 65504:
  in a float16 array the literal is stored as \<open>-inf\<close>, which is no real number. There the
  masked scores are below every other score, as here, but a row of the reference kernel
  in which all scores are masked has the softmax \<open>NaN\<close>, which this model does not
  contain. What is proved below about the value of such a row is stated for the dtypes in
  which the literal is finite.
\<close>

definition sentinel :: real where
  "sentinel = - (10 ^ 20)"

text \<open>Whether the literal \<^verbatim>\<open>-1e20\<close> is a finite value of the dtype.\<close>

definition literal_finite :: "dtype \<Rightarrow> bool" where
  "literal_finite dt = (dt \<noteq> Float16)"

text \<open>\<^verbatim>\<open>jnp.einsum("Biha,Bjha->Bihj", q, k)\<close>\<close>

definition einsum_Biha_Bjha_Bihj :: "array4 \<Rightarrow> array4 \<Rightarrow> array4" where
  "einsum_Biha_Bjha_Bihj q k =
     (case shape q of (B, I, H, A) \<Rightarrow>
      case shape k of (B', J, H', A') \<Rightarrow>
        \<lparr>shape = (B, I, H, J),
         dtype = promote_types (dtype q) (dtype k),
         elems = tab4 (B, I, H, J)
           (\<lambda>b i h j. \<Sum>a\<leftarrow>[0..<A]. elems q ! b ! i ! h ! a * elems k ! b ! j ! h ! a)\<rparr>)"

text \<open>
  \<^verbatim>\<open>mask[:, None, None, :] * mask[:, :, None, None]\<close>, of shape
  \<open>(batch_len, seq_len, 1, seq_len)\<close>.
\<close>

definition square_mask_of :: "bool list list \<Rightarrow> bool list list list list" where
  "square_mask_of msk = map (\<lambda>m. map (\<lambda>mi. [map (\<lambda>mj. mj \<and> mi) m]) m) msk"

text \<open>
  \<^verbatim>\<open>jnp.where(square_mask, s, y)\<close> for a condition of shape \<open>(B, I, 1, J)\<close>, broadcast
  along the head axis, and a scalar \<open>y\<close>.
\<close>

definition jnp_where :: "bool list list list list \<Rightarrow> array4 \<Rightarrow> real \<Rightarrow> array4" where
  "jnp_where c s y =
     s\<lparr>elems := tab4 (shape s)
          (\<lambda>b i h j. if c ! b ! i ! 0 ! j then elems s ! b ! i ! h ! j else y)\<rparr>"

text \<open>
  \<^verbatim>\<open>jax.nn.softmax\<close> along one row: the maximum of the row is subtracted before the
  exponential, and the exponentials are divided by their sum.
\<close>

definition softmax_row :: "real list \<Rightarrow> real list" where
  "softmax_row xs =
     (case xs of [] \<Rightarrow> []
      | x # ys \<Rightarrow>
          (let x_max = fold max ys x;
               unnormalized = map (\<lambda>y. exp (y - x_max)) xs
           in map (\<lambda>u. u / sum_list unnormalized) unnormalized))"

text \<open>\<^verbatim>\<open>jax.nn.softmax(s, axis=-1)\<close>\<close>

definition softmax :: "array4 \<Rightarrow> array4" where
  "softmax s = s\<lparr>elems := map (map (map softmax_row)) (elems s)\<rparr>"

text \<open>\<^verbatim>\<open>jnp.einsum("Bihj,Bjha->Biha", p, v)\<close>\<close>

definition einsum_Bihj_Bjha_Biha :: "array4 \<Rightarrow> array4 \<Rightarrow> array4" where
  "einsum_Bihj_Bjha_Biha p v =
     (case shape p of (B, I, H, J) \<Rightarrow>
      case shape v of (B', J', H', A) \<Rightarrow>
        \<lparr>shape = (B, I, H, A),
         dtype = promote_types (dtype p) (dtype v),
         elems = tab4 (B, I, H, A)
           (\<lambda>b i h a. \<Sum>j\<leftarrow>[0..<J]. elems p ! b ! i ! h ! j * elems v ! b ! j ! h ! a)\<rparr>)"

subsection \<open>The reference kernel\<close>

text \<open>The scores \<open>s\<close> of \<^verbatim>\<open>reference_mha_kernel\<close> after the masking (its first three lines).\<close>

definition reference_mha_scores :: "array4 \<Rightarrow> array4 \<Rightarrow> bool list list \<Rightarrow> array4" where
  "reference_mha_scores q k msk =
     (let square_mask = square_mask_of msk;
          s = einsum_Biha_Bjha_Bihj q k;
          s = jnp_where square_mask s sentinel
      in s)"

text \<open>The attention weights \<open>p\<close> of \<^verbatim>\<open>reference_mha_kernel\<close>.\<close>

definition reference_mha_probs :: "array4 \<Rightarrow> array4 \<Rightarrow> bool list list \<Rightarrow> array4" where
  "reference_mha_probs q k msk = softmax (reference_mha_scores q k msk)"

text \<open>\<^verbatim>\<open>reference_mha_kernel\<close>; its parameter \<open>interpret\<close> is deleted on entry.\<close>

definition reference_mha_kernel ::
  "array4 \<Rightarrow> array4 \<Rightarrow> array4 \<Rightarrow> bool list list \<Rightarrow> bool \<Rightarrow> array4" where
  "reference_mha_kernel q k v msk interpret =
     (let p = reference_mha_probs q k msk;
          out = einsum_Bihj_Bjha_Biha p v
      in out)"

subsection \<open>The per-tile kernel\<close>

text \<open>
  The references a kernel instance receives: the blocks of Q, K, V and of the mask that
  its grid coordinate sees, and the block of the output it writes.
\<close>

record refs =
  q_ref :: "real list list"
  k_ref :: "real list list"
  v_ref :: "real list list"
  mask_ref :: "bool list"
  o_ref :: "real list list"

text \<open>\<^verbatim>\<open>jnp.where(m[:, None], x[:, :], y)\<close>: the rows of \<open>x\<close> whose mask entry is false become \<open>y\<close>.\<close>

definition where_rows :: "bool list \<Rightarrow> real list list \<Rightarrow> real \<Rightarrow> real list list" where
  "where_rows m x y = map2 (\<lambda>c row. map (\<lambda>e. if c then e else y) row) m x"

text \<open>\<^verbatim>\<open>jnp.where(c, s, y)\<close> for a condition and an array of one rank-2 shape.\<close>

definition where_mat :: "bool list list \<Rightarrow> real list list \<Rightarrow> real \<Rightarrow> real list list" where
  "where_mat c s y = map2 (\<lambda>crow srow. map2 (\<lambda>b e. if b then e else y) crow srow) c s"

text \<open>\<^verbatim>\<open>pl_dot(q, k, trans_b=True)\<close>: the product of \<open>q\<close> with the transpose of \<open>k\<close>.\<close>

definition pl_dot_trans_b :: "real list list \<Rightarrow> real list list \<Rightarrow> real list list" where
  "pl_dot_trans_b q k = map (\<lambda>qr. map (\<lambda>kr. sum_list (map2 (*) qr kr)) k) q"

text \<open>\<^verbatim>\<open>pl_dot(p, v)\<close>: the matrix product; \<open>v.shape[1]\<close> is read off the first row of \<open>v\<close>.\<close>

definition pl_dot :: "real list list \<Rightarrow> real list list \<Rightarrow> real list list" where
  "pl_dot p v =
     (let n = (case v of [] \<Rightarrow> 0 | r # _ \<Rightarrow> length r)
      in map (\<lambda>pr. map (\<lambda>a. \<Sum>j\<leftarrow>[0..<length v]. pr ! j * v ! j ! a) [0..<n]) p)"

text \<open>
  The mask of the query tile of \<^verbatim>\<open>mha_kernel\<close>:
  \<^verbatim>\<open>pl_load(mask_ref, (pl_dslice(q_idx * q_block_len, q_block_len),))\<close>, where
  \<^verbatim>\<open>q_block_len or q_ref.shape[0]\<close> replaces an absent or zero block length.
\<close>

definition mha_kernel_q_mask :: "refs \<Rightarrow> nat option \<Rightarrow> (nat \<Rightarrow> nat) \<Rightarrow> bool list" where
  "mha_kernel_q_mask r q_block_len program_id =
     (let q_idx = (case q_block_len of None \<Rightarrow> 0 | Some _ \<Rightarrow> program_id 1);
          q_block_len = (case q_block_len of None \<Rightarrow> length (q_ref r)
                         | Some n \<Rightarrow> if n = 0 then length (q_ref r) else n)
      in take q_block_len (drop (q_idx * q_block_len) (mask_ref r)))"

text \<open>The scores \<open>s\<close> of \<^verbatim>\<open>mha_kernel\<close> after the masking.\<close>

definition mha_kernel_scores :: "refs \<Rightarrow> nat option \<Rightarrow> (nat \<Rightarrow> nat) \<Rightarrow> real list list" where
  "mha_kernel_scores r q_block_len program_id =
     (let kv_mask = mask_ref r;
          q_mask = mha_kernel_q_mask r q_block_len program_id;
          square_mask = map (\<lambda>qm. map (\<lambda>km. qm \<and> km) kv_mask) q_mask;
          q = where_rows q_mask (q_ref r) 0;
          k = where_rows kv_mask (k_ref r) 0
      in where_mat square_mask (pl_dot_trans_b q k) sentinel)"

text \<open>The attention weights \<open>p\<close> of \<^verbatim>\<open>mha_kernel\<close> (softmax along axis 1).\<close>

definition mha_kernel_probs :: "refs \<Rightarrow> nat option \<Rightarrow> (nat \<Rightarrow> nat) \<Rightarrow> real list list" where
  "mha_kernel_probs r q_block_len program_id =
     map softmax_row (mha_kernel_scores r q_block_len program_id)"

text \<open>\<^verbatim>\<open>mha_kernel\<close>: the only write is the assignment to \<open>o_ref\<close>.\<close>

definition mha_kernel :: "refs \<Rightarrow> nat option \<Rightarrow> (nat \<Rightarrow> nat) \<Rightarrow> refs" where
  "mha_kernel r q_block_len program_id =
     (let kv_mask = mask_ref r;
          v = where_rows kv_mask (v_ref r) 0;
          p = mha_kernel_probs r q_block_len program_id;
          out = pl_dot p v
      in r\<lparr>o_ref := out\<rparr>)"

subsection \<open>Tiling planner, grid and block specifications\<close>

datatype error = ConfigurationError | ValueError string

text \<open>
  Modelled from the spec: \<^verbatim>\<open>compute_q_and_kv_block_len\<close> of
  \<^verbatim>\<open>folx/experimental/pallas/utils.py\<close> is not among the sources. Section 4.1 of the
  specification: without an override the query block length is the sequence length; the
  key/value block length is always the sequence length; the planner fails with a
  configuration error if \<open>sequence_length % q_block_len != 0\<close>. A block length of zero,
  for which the remainder is undefined, fails in the same way.
\<close>

definition compute_q_and_kv_block_len :: "nat \<Rightarrow> nat option \<Rightarrow> error + nat \<times> nat" where
  "compute_q_and_kv_block_len seq_len q_block_len =
     (let q_block_len = (case q_block_len of None \<Rightarrow> seq_len | Some n \<Rightarrow> n);
          kv_block_len = seq_len
      in if q_block_len = 0 then Inl ConfigurationError
         else if seq_len mod q_block_len \<noteq> 0 then Inl ConfigurationError
         else Inr (q_block_len, kv_block_len))"

text \<open>
  Modelled from the spec: \<^verbatim>\<open>create_grid\<close> of \<^verbatim>\<open>utils.py\<close> is not among the sources.
  Section 4.1: the grid has one coordinate for each batch element, head and query block,
  with \<open>sequence_length / q_block_len\<close> query blocks. The kernel reads the index of its
  query block with \<^verbatim>\<open>program_id(1)\<close>, so the query blocks are axis 1 of the grid.
\<close>

definition create_grid :: "nat \<Rightarrow> nat \<Rightarrow> nat \<Rightarrow> nat \<Rightarrow> nat \<times> nat \<times> nat" where
  "create_grid batch_len seq_len num_heads q_block_len =
     (batch_len, seq_len div q_block_len, num_heads)"

text \<open>
  Modelled from the spec: \<^verbatim>\<open>get_value_or_laplacian_block_spec\<close> of \<^verbatim>\<open>utils.py\<close> is not
  among the sources. Section 4.2: the block of a grid coordinate \<open>(b, t, h)\<close> is the
  submatrix of the pair \<open>(b, h)\<close>; with the query block length it holds the
  \<open>block_len\<close> sequence positions from \<open>t * block_len\<close> on, with the key/value block
  length (the sequence length) it holds the entire sequence.
\<close>

definition get_value_or_laplacian_block_spec ::
  "nat \<Rightarrow> nat \<Rightarrow> nat \<Rightarrow> nat \<times> nat \<times> nat \<Rightarrow> real list list list list \<Rightarrow> real list list" where
  "get_value_or_laplacian_block_spec seq_len head_len block_len c x =
     (case c of (b, t, h) \<Rightarrow>
        (let offset = (if block_len = seq_len then 0 else t * block_len)
         in map (\<lambda>row. take head_len (row ! h)) (take block_len (drop offset (x ! b)))))"

text \<open>
  Modelled from the spec: \<^verbatim>\<open>get_mask_block_spec\<close> of \<^verbatim>\<open>utils.py\<close> is not among the
  sources. Section 4.2: the mask block depends only on the batch coordinate and is the
  whole mask row of length \<open>sequence_length\<close>.
\<close>

definition get_mask_block_spec ::
  "nat \<Rightarrow> nat \<Rightarrow> nat \<times> nat \<times> nat \<Rightarrow> bool list list \<Rightarrow> bool list" where
  "get_mask_block_spec seq_len q_block_len c msk =
     (case c of (b, t, h) \<Rightarrow> take seq_len (msk ! b))"

text \<open>
  The references of the kernel instance at the grid coordinate \<open>c\<close>: the blocks that the
  four input specifications of \<^verbatim>\<open>mha\<close> select from \<open>q\<close>, \<open>k\<close>, \<open>v\<close> and the mask, and the
  block of the output specification, of shape \<open>(q_block_len, head_len)\<close>, before the
  kernel has written it.
\<close>

definition kernel_refs ::
  "nat \<Rightarrow> nat \<Rightarrow> nat \<Rightarrow> nat \<Rightarrow> array4 \<Rightarrow> array4 \<Rightarrow> array4 \<Rightarrow> bool list list \<Rightarrow>
   nat \<times> nat \<times> nat \<Rightarrow> refs" where
  "kernel_refs seq_len head_len q_block_len kv_block_len q k v msk c =
     \<lparr>q_ref = get_value_or_laplacian_block_spec seq_len head_len q_block_len c (elems q),
      k_ref = get_value_or_laplacian_block_spec seq_len head_len kv_block_len c (elems k),
      v_ref = get_value_or_laplacian_block_spec seq_len head_len kv_block_len c (elems v),
      mask_ref = get_mask_block_spec seq_len q_block_len c msk,
      o_ref = replicate q_block_len (replicate head_len 0)\<rparr>"

text \<open>
  \<^verbatim>\<open>pallas_call(partial(mha_kernel, q_block_len=q_block_len), grid=..., in_specs=...,
  out_specs=..., out_shape=...)\<close> applied to \<open>(q, k, v, mask)\<close>: one kernel instance for
  each coordinate \<open>(b, t, h)\<close> of the grid, on the blocks the specifications select, with
  \<^verbatim>\<open>program_id\<close> returning the coordinate; the output specification places the block an
  instance wrote at the sequence positions of its query block. The compiler parameters,
  \<open>interpret\<close>, \<open>debug\<close> and \<open>name\<close> do not enter the result.
\<close>

definition pallas_call_mha ::
  "nat \<Rightarrow> nat \<Rightarrow> shape4 \<Rightarrow> dtype \<Rightarrow> array4 \<Rightarrow> array4 \<Rightarrow> array4 \<Rightarrow> bool list list \<Rightarrow> array4" where
  "pallas_call_mha q_block_len kv_block_len out_shape out_dtype q k v msk =
     (case out_shape of (batch_len, seq_len, num_heads, head_len) \<Rightarrow>
      case create_grid batch_len seq_len num_heads q_block_len of (g0, g1, g2) \<Rightarrow>
        (let instance = (\<lambda>b t h.
               o_ref (mha_kernel
                 (kernel_refs seq_len head_len q_block_len kv_block_len q k v msk (b, t, h))
                 (Some q_block_len) (\<lambda>axis. [b, t, h] ! axis)))
         in \<lparr>shape = out_shape, dtype = out_dtype,
             elems = map (\<lambda>b. concat (map (\<lambda>t.
                        map (\<lambda>r. map (\<lambda>h. instance b t h ! r) [0..<g2]) [0..<q_block_len])
                        [0..<g1])) [0..<g0]\<rparr>))"

subsection \<open>The dispatcher\<close>

text \<open>
  \<^verbatim>\<open>mha\<close>. The parameter \<open>input_mask\<close> is deleted on entry; the planner runs before the
  kernel name is inspected; an unknown kernel name raises \<^verbatim>\<open>ValueError\<close>.
\<close>

definition mha ::
  "array4 \<Rightarrow> array4 \<Rightarrow> array4 \<Rightarrow> bool list list \<Rightarrow> 'im \<Rightarrow> string \<Rightarrow> bool \<Rightarrow> nat option \<Rightarrow>
   nat \<Rightarrow> nat \<Rightarrow> error + array4" where
  "mha q k v msk input_mask kern interpret q_block_len num_warps num_stages =
     (case shape q of (batch_len, seq_len, num_heads, head_len) \<Rightarrow>
       (case compute_q_and_kv_block_len seq_len q_block_len of
          Inl e \<Rightarrow> Inl e
        | Inr (q_block_len, kv_block_len) \<Rightarrow>
            if kern = ''pallas'' then
              Inr (pallas_call_mha q_block_len kv_block_len
                     (batch_len, seq_len, num_heads, head_len) (dtype q) q k v msk)
            else if kern = ''reference'' then
              Inr (reference_mha_kernel q k v msk False)
            else Inl (ValueError (''Unknown multi-head attention kernel: '' @ kern))))"

subsection \<open>Example inputs\<close>

text \<open>
  One batch element, four sequence positions, one head of length one; the last two
  positions are padding and hold zeros.
\<close>

definition ex4 :: array4 where
  "ex4 = \<lparr>shape = (1, 4, 1, 1), dtype = Float32, elems = [[[[1]], [[2]], [[0]], [[0]]]]\<rparr>"

definition ex4_mask :: "bool list list" where
  "ex4_mask = [[True, True, False, False]]"

text \<open>
  One batch element, two sequence positions, one head of length one; the second position
  is padding, and the value stored there is not zero.
\<close>

definition ex2_q :: array4 where
  "ex2_q = \<lparr>shape = (1, 2, 1, 1), dtype = Float32, elems = [[[[0]], [[0]]]]\<rparr>"

definition ex2_v :: array4 where
  "ex2_v = \<lparr>shape = (1, 2, 1, 1), dtype = Float32, elems = [[[[0]], [[1]]]]\<rparr>"

definition ex2_mask :: "bool list list" where
  "ex2_mask = [[True, False]]"



text \<open>The array \<open>ex4\<close> as a float16 array.\<close>

definition ex4_f16 :: array4 where
  "ex4_f16 = \<lparr>shape = (1, 4, 1, 1), dtype = Float16, elems = [[[[1]], [[2]], [[0]], [[0]]]]\<rparr>"

subsection \<open>The masked scores of one query position\<close>

text \<open>
  The row of scores of the query position \<open>i\<close> of batch element \<open>b\<close> and head \<open>h\<close> against
  all key positions, in the form both kernels are shown to compute below (lemmas
  \<open>reference_scores_score_row\<close> and \<open>kernel_scores_score_row\<close>).
\<close>

definition score_row ::
  "nat \<Rightarrow> nat \<Rightarrow> array4 \<Rightarrow> array4 \<Rightarrow> bool list list \<Rightarrow> nat \<Rightarrow> nat \<Rightarrow> nat \<Rightarrow> real list" where
  "score_row S A q k msk b i h =
     map (\<lambda>j. if msk ! b ! i \<and> msk ! b ! j
              then (\<Sum>a\<leftarrow>[0..<A]. elems q ! b ! i ! h ! a * elems k ! b ! j ! h ! a)
              else sentinel) [0..<S]"

section \<open>Auxiliary facts\<close>

subsection \<open>Tables, shapes and sums\<close>

lemma tab4_nth:
  "b < d0 \<Longrightarrow> i < d1 \<Longrightarrow> h < d2 \<Longrightarrow> a < d3 \<Longrightarrow> tab4 (d0, d1, d2, d3) f ! b ! i ! h ! a = f b i h a"
  by (simp add: tab4_def)

lemma tab4_row:
  "b < d0 \<Longrightarrow> i < d1 \<Longrightarrow> h < d2 \<Longrightarrow> tab4 (d0, d1, d2, d3) f ! b ! i ! h = map (f b i h) [0..<d3]"
  by (simp add: tab4_def)

lemma has_shape_tab4: "has_shape sh (tab4 sh f)"
  by (cases sh) (auto simp: has_shape_def tab4_def)

lemma mask_has_shape_nth:
  assumes "mask_has_shape (d0, d1) m" "b < d0"
  shows "length m = d0" "length (m ! b) = d1"
  using assms by (auto simp: mask_has_shape_def)

lemma sum_list_map2_nth:
  "length xs = n \<Longrightarrow> length ys = n \<Longrightarrow> sum_list (map2 f xs ys) = (\<Sum>a\<leftarrow>[0..<n]. f (xs ! a) (ys ! a))"
  by (rule arg_cong[where f=sum_list]) (auto intro!: nth_equalityI)

lemma length_softmax_row: "length (softmax_row xs) = length xs"
  by (simp add: softmax_row_def Let_def split: list.splits)

lemma has_shape_nth:
  assumes "has_shape (d0, d1, d2, d3) x" "b < d0" "i < d1" "h < d2"
  shows "length x = d0" "length (x ! b) = d1" "length (x ! b ! i) = d2" "length (x ! b ! i ! h) = d3"
proof -
  show l0: "length x = d0" using assms by (simp add: has_shape_def)
  have m: "x ! b \<in> set x" using l0 assms(2) by simp
  show l1: "length (x ! b) = d1" using assms(1) m by (simp add: has_shape_def)
  have r: "x ! b ! i \<in> set (x ! b)" using l1 assms(3) by simp
  show l2: "length (x ! b ! i) = d2" using assms(1) m r by (simp add: has_shape_def)
  have u: "x ! b ! i ! h \<in> set (x ! b ! i)" using l2 assms(4) by simp
  show "length (x ! b ! i ! h) = d3" using assms(1) m r u by (simp add: has_shape_def)
qed

lemma sum_list_exp_pos: "xs \<noteq> [] \<Longrightarrow> 0 < (\<Sum>y\<leftarrow>xs. exp (y - (c::real)))"
proof (induction xs)
  case Nil
  then show ?case by simp
next
  case (Cons a xs)
  have "0 \<le> (\<Sum>y\<leftarrow>xs. exp (y - c))" by (rule sum_list_nonneg) auto
  moreover have "0 < exp (a - c)" by simp
  ultimately show ?case by (simp add: add_pos_nonneg)
qed

lemma exp_shift: "exp (y - m) = exp (c - m) * exp (y - (c::real))"
proof -
  have "y - m = (c - m) + (y - c)" by simp
  then show ?thesis by (simp only: exp_add)
qed

lemma softmax_row_shift:
  assumes "j < length xs"
  shows "softmax_row xs ! j = exp (xs ! j - c) / (\<Sum>y\<leftarrow>xs. exp (y - c))"
proof -
  from assms obtain x ys where xs: "xs = x # ys" by (cases xs) auto
  define m where "m = fold max ys x"
  have s: "(\<Sum>y\<leftarrow>xs. exp (y - m)) = exp (c - m) * (\<Sum>y\<leftarrow>xs. exp (y - c))"
    by (subst exp_shift[of _ m c]) (simp only: sum_list_const_mult)
  have "softmax_row xs = map (\<lambda>u. u / (\<Sum>y\<leftarrow>xs. exp (y - m))) (map (\<lambda>y. exp (y - m)) xs)"
    unfolding softmax_row_def xs m_def by (simp add: Let_def)
  then have "softmax_row xs ! j = exp (xs ! j - m) / (\<Sum>y\<leftarrow>xs. exp (y - m))"
    using assms by simp
  also have "\<dots> = (exp (c - m) * exp (xs ! j - c)) / (exp (c - m) * (\<Sum>y\<leftarrow>xs. exp (y - c)))"
    by (simp only: s exp_shift[of "xs ! j" m c])
  also have "\<dots> = exp (xs ! j - c) / (\<Sum>y\<leftarrow>xs. exp (y - c))"
    by simp
  finally show ?thesis .
qed

lemma softmax_row_const:
  assumes c: "\<forall>x\<in>set xs. x = c" and j: "j < length xs"
  shows "softmax_row xs ! j = 1 / real (length xs)"
proof -
  have xs: "xs = replicate (length xs) c"
    using c by (simp add: replicate_length_same)
  have m: "map (\<lambda>y. exp (y - c)) xs = replicate (length xs) 1"
    by (subst xs) simp
  have "(\<Sum>y\<leftarrow>xs. exp (y - c)) = real (length xs)"
    unfolding m by (simp add: sum_list_replicate)
  moreover have "xs ! j = c" using c j by simp
  ultimately show ?thesis using softmax_row_shift[OF j, of c] by simp
qed

lemma member_le_sum_list_real:
  assumes "\<forall>x\<in>set xs. 0 \<le> (x::real)" "x \<in> set xs"
  shows "x \<le> sum_list xs"
  using assms
proof (induction xs)
  case Nil
  then show ?case by simp
next
  case (Cons y ys)
  have nn: "0 \<le> sum_list ys" using Cons.prems(1) by (intro sum_list_nonneg) simp
  show ?case
  proof (cases "x = y")
    case True
    then show ?thesis using nn by simp
  next
    case False
    then have "x \<le> sum_list ys" using Cons by simp
    moreover have "0 \<le> y" using Cons.prems(1) by simp
    ultimately show ?thesis by simp
  qed
qed

lemma softmax_row_nonneg:
  assumes j: "j < length xs"
  shows "0 \<le> softmax_row xs ! j"
proof -
  have ne: "xs \<noteq> []" using j by auto
  show ?thesis
    unfolding softmax_row_shift[OF j, of 0]
    using sum_list_exp_pos[OF ne, of 0] by simp
qed

lemma softmax_row_le:
  assumes i: "i < length xs" and j: "j < length xs"
  shows "softmax_row xs ! j \<le> exp (xs ! j - xs ! i)"
proof -
  let ?c = "xs ! i"
  let ?Z = "\<Sum>y\<leftarrow>xs. exp (y - ?c)"
  have "exp (?c - ?c) \<in> set (map (\<lambda>y. exp (y - ?c)) xs)"
    using i by (auto simp del: diff_self cancel_comm_monoid_add_class.diff_cancel)
  then have "exp (?c - ?c) \<le> ?Z"
    by (intro member_le_sum_list_real) auto
  then have Z: "1 \<le> ?Z" by simp
  have "softmax_row xs ! j = exp (xs ! j - ?c) / ?Z" by (rule softmax_row_shift[OF j])
  also have "\<dots> \<le> exp (xs ! j - ?c) / 1"
    using Z by (intro divide_left_mono) simp_all
  finally show ?thesis by simp
qed

subsection \<open>The reference kernel, element by element\<close>

lemma square_mask_of_nth:
  assumes "mask_has_shape (B, S) msk" "b < B" "i < S" "j < S"
  shows "square_mask_of msk ! b ! i ! 0 ! j = (msk ! b ! j \<and> msk ! b ! i)"
  using assms mask_has_shape_nth[OF assms(1,2)] by (simp add: square_mask_of_def)

lemma shape_reference_mha_scores:
  assumes "shape q = (B, S, H, A)" "shape k = (B, S, H, A)"
  shows "shape (reference_mha_scores q k msk) = (B, S, H, S)"
  using assms by (simp add: reference_mha_scores_def einsum_Biha_Bjha_Bihj_def jnp_where_def Let_def cong: if_cong)

lemma dtype_reference_mha_scores:
  "dtype (reference_mha_scores q k msk) = promote_types (dtype q) (dtype k)"
  by (cases "shape q"; cases "shape k")
     (simp add: reference_mha_scores_def einsum_Biha_Bjha_Bihj_def jnp_where_def)

lemma tab4_cong:
  assumes "\<And>b i h a. b < d0 \<Longrightarrow> i < d1 \<Longrightarrow> h < d2 \<Longrightarrow> a < d3 \<Longrightarrow> f b i h a = g b i h a"
  shows "tab4 (d0, d1, d2, d3) f = tab4 (d0, d1, d2, d3) g"
  using assms by (simp add: tab4_def)

lemma map3_tab4_nth:
  "b < d0 \<Longrightarrow> i < d1 \<Longrightarrow> h < d2 \<Longrightarrow>
   map (map (map f)) (tab4 (d0, d1, d2, d3) g) ! b ! i ! h = f (tab4 (d0, d1, d2, d3) g ! b ! i ! h)"
  by (simp add: tab4_def)

lemma elems_reference_mha_scores:
  assumes sh: "shape q = (B, S, H, A)" "shape k = (B, S, H, A)"
    and m: "mask_has_shape (B, S) msk"
  shows "elems (reference_mha_scores q k msk) =
         tab4 (B, S, H, S) (\<lambda>b i h j.
           if msk ! b ! j \<and> msk ! b ! i
           then (\<Sum>a\<leftarrow>[0..<A]. elems q ! b ! i ! h ! a * elems k ! b ! j ! h ! a)
           else sentinel)"
proof -
  have "elems (reference_mha_scores q k msk) =
         tab4 (B, S, H, S) (\<lambda>b i h j.
           if square_mask_of msk ! b ! i ! 0 ! j
           then tab4 (B, S, H, S) (\<lambda>b i h j. \<Sum>a\<leftarrow>[0..<A]. elems q ! b ! i ! h ! a * elems k ! b ! j ! h ! a) ! b ! i ! h ! j
           else sentinel)"
    using sh by (simp add: reference_mha_scores_def einsum_Biha_Bjha_Bihj_def jnp_where_def Let_def cong: if_cong)
  also have "\<dots> = tab4 (B, S, H, S) (\<lambda>b i h j.
           if msk ! b ! j \<and> msk ! b ! i
           then (\<Sum>a\<leftarrow>[0..<A]. elems q ! b ! i ! h ! a * elems k ! b ! j ! h ! a)
           else sentinel)"
    by (rule tab4_cong) (simp add: square_mask_of_nth[OF m] tab4_nth)
  finally show ?thesis .
qed

lemma reference_mha_scores_row:
  assumes sh: "shape q = (B, S, H, A)" "shape k = (B, S, H, A)"
    and m: "mask_has_shape (B, S) msk"
    and ix: "b < B" "i < S" "h < H"
  shows "elems (reference_mha_scores q k msk) ! b ! i ! h =
         map (\<lambda>j. if msk ! b ! j \<and> msk ! b ! i
                  then (\<Sum>a\<leftarrow>[0..<A]. elems q ! b ! i ! h ! a * elems k ! b ! j ! h ! a)
                  else sentinel) [0..<S]"
  unfolding elems_reference_mha_scores[OF sh m] by (rule tab4_row[OF ix])

lemma reference_mha_probs_row:
  assumes sh: "shape q = (B, S, H, A)" "shape k = (B, S, H, A)"
    and m: "mask_has_shape (B, S) msk"
    and ix: "b < B" "i < S" "h < H"
  shows "elems (reference_mha_probs q k msk) ! b ! i ! h =
         softmax_row (elems (reference_mha_scores q k msk) ! b ! i ! h)"
  by (simp add: reference_mha_probs_def softmax_def elems_reference_mha_scores[OF sh m]
        map3_tab4_nth[OF ix])

lemma shape_reference_mha_probs:
  assumes "shape q = (B, S, H, A)" "shape k = (B, S, H, A)"
  shows "shape (reference_mha_probs q k msk) = (B, S, H, S)"
  using shape_reference_mha_scores[OF assms] by (simp add: reference_mha_probs_def softmax_def)

lemma dtype_reference_mha_probs:
  "dtype (reference_mha_probs q k msk) = promote_types (dtype q) (dtype k)"
  by (simp add: reference_mha_probs_def softmax_def dtype_reference_mha_scores)

lemma reference_mha_kernel_props:
  assumes sh: "shape q = (B, S, H, A)" "shape k = (B, S, H, A)" "shape v = (B, S, H, A)"
  shows "shape (reference_mha_kernel q k v msk ip) = (B, S, H, A)"
    and "dtype (reference_mha_kernel q k v msk ip) =
           promote_types (promote_types (dtype q) (dtype k)) (dtype v)"
    and "elems (reference_mha_kernel q k v msk ip) =
           tab4 (B, S, H, A) (\<lambda>b i h a.
             \<Sum>j\<leftarrow>[0..<S]. elems (reference_mha_probs q k msk) ! b ! i ! h ! j * elems v ! b ! j ! h ! a)"
  using shape_reference_mha_probs[OF sh(1,2)] sh(3)
  by (simp_all add: reference_mha_kernel_def einsum_Bihj_Bjha_Biha_def dtype_reference_mha_probs)

lemma reference_mha_kernel_elem:
  assumes sh: "shape q = (B, S, H, A)" "shape k = (B, S, H, A)" "shape v = (B, S, H, A)"
    and m: "mask_has_shape (B, S) msk"
    and ix: "b < B" "i < S" "h < H" "a < A"
  shows "elems (reference_mha_kernel q k v msk ip) ! b ! i ! h ! a =
         (\<Sum>j\<leftarrow>[0..<S]. softmax_row (elems (reference_mha_scores q k msk) ! b ! i ! h) ! j
                          * elems v ! b ! j ! h ! a)"
  unfolding reference_mha_kernel_props(3)[OF sh] tab4_nth[OF ix]
  by (simp only: reference_mha_probs_row[OF sh(1,2) m ix(1,2,3)])

subsection \<open>The per-tile kernel, row by row\<close>

lemma length_where_rows: "length (where_rows m x y) = min (length m) (length x)"
  by (simp add: where_rows_def)

lemma where_rows_nth:
  "i < length m \<Longrightarrow> i < length x \<Longrightarrow>
   where_rows m x y ! i = map (\<lambda>e. if m ! i then e else y) (x ! i)"
  by (simp add: where_rows_def)

lemma where_rows_nth_True:
  "i < length m \<Longrightarrow> i < length x \<Longrightarrow> m ! i \<Longrightarrow> where_rows m x y ! i = x ! i"
  by (simp add: where_rows_nth)

lemma length_where_mat: "length (where_mat c s y) = min (length c) (length s)"
  by (simp add: where_mat_def)

lemma where_mat_nth:
  "i < length c \<Longrightarrow> i < length s \<Longrightarrow>
   where_mat c s y ! i = map2 (\<lambda>b e. if b then e else y) (c ! i) (s ! i)"
  by (simp add: where_mat_def)

lemma length_pl_dot_trans_b: "length (pl_dot_trans_b q k) = length q"
  by (simp add: pl_dot_trans_b_def)

lemma pl_dot_trans_b_nth:
  "i < length q \<Longrightarrow> pl_dot_trans_b q k ! i = map (\<lambda>kr. sum_list (map2 (*) (q ! i) kr)) k"
  by (simp add: pl_dot_trans_b_def)

lemma mha_kernel_q_mask_Some:
  "0 < n \<Longrightarrow> mha_kernel_q_mask r (Some n) pid = take n (drop (pid 1 * n) (mask_ref r))"
  by (simp add: mha_kernel_q_mask_def)

lemma length_mha_kernel_scores:
  assumes "0 < n" "length (q_ref r) = n" "pid 1 * n + n \<le> length (mask_ref r)"
  shows "length (mha_kernel_scores r (Some n) pid) = n"
  using assms
  by (simp add: mha_kernel_scores_def Let_def mha_kernel_q_mask_Some length_where_mat
      length_pl_dot_trans_b length_where_rows)

lemma mha_kernel_scores_row:
  assumes n: "0 < n" and lq: "length (q_ref r) = n"
    and lk: "length (k_ref r) = S" and lm: "length (mask_ref r) = S"
    and t: "pid 1 * n + n \<le> S" and i: "i < n"
  shows "mha_kernel_scores r (Some n) pid ! i =
         map (\<lambda>j. if mask_ref r ! (pid 1 * n + i) \<and> mask_ref r ! j
                  then sum_list (map2 (*) (q_ref r ! i) (k_ref r ! j))
                  else sentinel) [0..<S]"
proof -
  let ?qm = "take n (drop (pid 1 * n) (mask_ref r))"
  have lqm: "length ?qm = n" using t lm by simp
  have qmi: "?qm ! i = mask_ref r ! (pid 1 * n + i)" using i t lm by simp
  let ?q = "where_rows ?qm (q_ref r) 0"
  let ?k = "where_rows (mask_ref r) (k_ref r) 0"
  have row: "mha_kernel_scores r (Some n) pid ! i =
        map2 (\<lambda>b e. if b then e else sentinel)
          (map (\<lambda>km. ?qm ! i \<and> km) (mask_ref r))
          (map (\<lambda>kr. sum_list (map2 (*) (?q ! i) kr)) ?k)"
    using i lqm lq n
    by (simp add: mha_kernel_scores_def Let_def mha_kernel_q_mask_Some where_mat_nth
        length_pl_dot_trans_b length_where_rows pl_dot_trans_b_nth)
  show ?thesis
    unfolding row
  proof (rule nth_equalityI)
    show "length (map2 (\<lambda>b e. if b then e else sentinel)
          (map (\<lambda>km. ?qm ! i \<and> km) (mask_ref r))
          (map (\<lambda>kr. sum_list (map2 (*) (?q ! i) kr)) ?k)) =
        length (map (\<lambda>j. if mask_ref r ! (pid 1 * n + i) \<and> mask_ref r ! j
                  then sum_list (map2 (*) (q_ref r ! i) (k_ref r ! j))
                  else sentinel) [0..<S])"
      using lm lk by (simp add: length_where_rows)
  next
    fix j
    assume "j < length (map2 (\<lambda>b e. if b then e else sentinel)
          (map (\<lambda>km. ?qm ! i \<and> km) (mask_ref r))
          (map (\<lambda>kr. sum_list (map2 (*) (?q ! i) kr)) ?k))"
    then have j: "j < S" using lm lk by (simp add: length_where_rows)
    show "map2 (\<lambda>b e. if b then e else sentinel)
          (map (\<lambda>km. ?qm ! i \<and> km) (mask_ref r))
          (map (\<lambda>kr. sum_list (map2 (*) (?q ! i) kr)) ?k) ! j =
        map (\<lambda>j. if mask_ref r ! (pid 1 * n + i) \<and> mask_ref r ! j
                  then sum_list (map2 (*) (q_ref r ! i) (k_ref r ! j))
                  else sentinel) [0..<S] ! j"
    proof (cases "mask_ref r ! (pid 1 * n + i) \<and> mask_ref r ! j")
      case True
      then have qi: "?q ! i = q_ref r ! i" using i lqm lq qmi by (simp add: where_rows_nth_True)
      have kj: "?k ! j = k_ref r ! j" using True j lm lk by (simp add: where_rows_nth_True)
      show ?thesis using True j lm lk qmi qi kj by (simp add: length_where_rows)
    next
      case False
      then show ?thesis using j lm lk qmi by (auto simp add: length_where_rows)
    qed
  qed
qed

lemma length_pl_dot: "length (pl_dot p v) = length p"
  by (simp add: pl_dot_def Let_def)

lemma pl_dot_nth:
  assumes "i < length p" "v \<noteq> []" "length (hd v) = A" "a < A"
  shows "pl_dot p v ! i ! a = (\<Sum>j\<leftarrow>[0..<length v]. p ! i ! j * v ! j ! a)"
  using assms by (cases v) (simp_all add: pl_dot_def Let_def)

lemma hd_where_rows:
  assumes "m \<noteq> []" "x \<noteq> []"
  shows "length (hd (where_rows m x y)) = length (hd x)" "where_rows m x y \<noteq> []"
  using assms by (cases m; cases x; simp add: where_rows_def)+

lemma length_mha_kernel_probs:
  assumes "0 < n" "length (q_ref r) = n" "pid 1 * n + n \<le> length (mask_ref r)"
  shows "length (mha_kernel_probs r (Some n) pid) = n"
  using assms length_mha_kernel_scores[of n r pid] by (simp add: mha_kernel_probs_def)

lemma mha_kernel_frame:
  "q_ref (mha_kernel r qbl pid) = q_ref r \<and> k_ref (mha_kernel r qbl pid) = k_ref r \<and>
   v_ref (mha_kernel r qbl pid) = v_ref r \<and> mask_ref (mha_kernel r qbl pid) = mask_ref r"
  by (simp add: mha_kernel_def Let_def)

lemma length_o_ref_mha_kernel:
  assumes "0 < n" "length (q_ref r) = n" "pid 1 * n + n \<le> length (mask_ref r)"
  shows "length (o_ref (mha_kernel r (Some n) pid)) = n"
  using assms length_mha_kernel_probs[of n r pid] by (simp add: mha_kernel_def Let_def length_pl_dot)

lemma length_o_ref_mha_kernel_row:
  assumes "0 < n" "length (q_ref r) = n" "pid 1 * n + n \<le> length (mask_ref r)"
    and "length (v_ref r) = length (mask_ref r)" "length (hd (v_ref r)) = A" "i < n"
  shows "length (o_ref (mha_kernel r (Some n) pid) ! i) = A"
proof -
  have ne: "mask_ref r \<noteq> []" "v_ref r \<noteq> []" using assms by auto
  show ?thesis
    using length_mha_kernel_probs[of n r pid] assms hd_where_rows[OF ne, of 0]
    by (cases "where_rows (mask_ref r) (v_ref r) 0") (simp_all add: mha_kernel_def Let_def pl_dot_def)
qed

lemma o_ref_mha_kernel_nth:
  assumes n: "0 < n" and lq: "length (q_ref r) = n"
    and lv: "length (v_ref r) = S" and lm: "length (mask_ref r) = S"
    and rv: "\<forall>row\<in>set (v_ref r). length row = A"
    and t: "pid 1 * n + n \<le> S" and i: "i < n" and a: "a < A"
  shows "o_ref (mha_kernel r (Some n) pid) ! i ! a =
         (\<Sum>j\<leftarrow>[0..<S]. softmax_row (mha_kernel_scores r (Some n) pid ! i) ! j *
                          (if mask_ref r ! j then v_ref r ! j ! a else 0))"
proof -
  have S: "0 < S" using n t by simp
  have ne: "mask_ref r \<noteq> []" "v_ref r \<noteq> []" using S lm lv by auto
  have hv: "length (hd (v_ref r)) = A" using ne(2) rv by (cases "v_ref r") auto
  let ?v = "where_rows (mask_ref r) (v_ref r) 0"
  have lp: "length (mha_kernel_probs r (Some n) pid) = n"
    using length_mha_kernel_probs[of n r pid] n lq t lm by simp
  have ls: "length (mha_kernel_scores r (Some n) pid) = n"
    using length_mha_kernel_scores[of n r pid] n lq t lm by simp
  have "o_ref (mha_kernel r (Some n) pid) ! i ! a =
        (\<Sum>j\<leftarrow>[0..<length ?v]. mha_kernel_probs r (Some n) pid ! i ! j * ?v ! j ! a)"
    unfolding mha_kernel_def Let_def
    using pl_dot_nth[of i "mha_kernel_probs r (Some n) pid" ?v A a] lp i a hd_where_rows[OF ne, of 0] hv
    by simp
  also have "length ?v = S" using lm lv by (simp add: length_where_rows)
  also have "(\<Sum>j\<leftarrow>[0..<S]. mha_kernel_probs r (Some n) pid ! i ! j * ?v ! j ! a) =
        (\<Sum>j\<leftarrow>[0..<S]. softmax_row (mha_kernel_scores r (Some n) pid ! i) ! j *
                          (if mask_ref r ! j then v_ref r ! j ! a else 0))"
  proof (rule arg_cong[where f=sum_list], rule map_cong[OF refl])
    fix j assume "j \<in> set [0..<S]"
    then have j: "j < S" by simp
    have p: "mha_kernel_probs r (Some n) pid ! i = softmax_row (mha_kernel_scores r (Some n) pid ! i)"
      using i ls by (simp add: mha_kernel_probs_def)
    show "mha_kernel_probs r (Some n) pid ! i ! j * ?v ! j ! a =
          softmax_row (mha_kernel_scores r (Some n) pid ! i) ! j *
                          (if mask_ref r ! j then v_ref r ! j ! a else 0)"
      using j lm lv rv a by (simp add: p where_rows_nth)
  qed
  finally show ?thesis .
qed

subsection \<open>The grid of kernel instances\<close>

lemma nth_concat_blocks:
  "i < m * n \<Longrightarrow> concat (map (\<lambda>t. map (g t) [0..<n]) [0..<m]) ! i = g (i div n) (i mod n)"
proof (induction m)
  case 0
  then show ?case by simp
next
  case (Suc m)
  have len: "length (concat (map (\<lambda>t. map (g t) [0..<n]) [0..<m])) = m * n"
    by (induction m) simp_all
  show ?case
  proof (cases "i < m * n")
    case True
    then show ?thesis using Suc.IH len by (simp add: nth_append)
  next
    case False
    then have ge: "m * n \<le> i" by simp
    have lt: "i - m * n < n" using Suc.prems ge by simp
    have n: "0 < n" using lt by simp
    have d: "i div n = m" 
      using ge Suc.prems n by (metis div_nat_eqI mult.commute)
    have md: "i mod n = i - m * n"
      using d by (metis minus_div_mult_eq_mod)
    show ?thesis using False len lt by (simp add: nth_append d md)
  qed
qed

lemma length_concat_blocks:
  "length (concat (map (\<lambda>t. map (g t) [0..<n]) [0..<m])) = m * n"
  by (induction m) simp_all

lemma block_index:
  assumes "0 < (n::nat)" "S mod n = 0" "i < S"
  shows "(i div n) * n + n \<le> S" "(i div n) * n + i mod n = i" "i mod n < n" "i div n < S div n"
proof -
  from assms(2) have "n dvd S" by (simp add: dvd_eq_mod_eq_0)
  then obtain m where S: "S = m * n" by (auto simp: dvd_def mult.commute)
  have "i div n < m" using assms(1,3) S by (simp add: less_mult_imp_div_less)
  then have "Suc (i div n) \<le> m" by simp
  then have "Suc (i div n) * n \<le> m * n" by (rule mult_le_mono1)
  then show "(i div n) * n + n \<le> S" using S by (simp add: add.commute)
  show "(i div n) * n + i mod n = i" by simp
  show "i mod n < n" using assms(1) by simp
  show "i div n < S div n" using \<open>i div n < m\<close> S assms(1) by simp
qed

lemma block_spec_rows:
  assumes hs: "has_shape (B, S, H, A) x" and b: "b < B" and h: "h < H"
    and off: "t * n + n \<le> S"
  shows "get_value_or_laplacian_block_spec S A n (b, t, h) x =
         map (\<lambda>i. x ! b ! (t * n + i) ! h) [0..<n]"
proof -
  have lb: "length (x ! b) = S" using hs b by (auto simp: has_shape_def)
  have o: "(if n = S then 0 else t * n) = t * n" using off by auto
  have row: "take A (x ! b ! (t * n + i) ! h) = x ! b ! (t * n + i) ! h" if "i < n" for i
  proof -
    have "t * n + i < S" using that off by simp
    from has_shape_nth(4)[OF hs b this h] show ?thesis by simp
  qed
  show ?thesis
    unfolding get_value_or_laplacian_block_spec_def Let_def o prod.case
    using lb off by (auto intro!: nth_equalityI simp: row)
qed

lemma kernel_refs_valid:
  assumes v: "valid_inputs q k v msk" and sh: "shape q = (B, S, H, A)"
    and b: "b < B" and h: "h < H" and off: "t * n + n \<le> S"
  shows "q_ref (kernel_refs S A n S q k v msk (b, t, h)) = map (\<lambda>i. elems q ! b ! (t * n + i) ! h) [0..<n]"
    and "k_ref (kernel_refs S A n S q k v msk (b, t, h)) = map (\<lambda>j. elems k ! b ! j ! h) [0..<S]"
    and "v_ref (kernel_refs S A n S q k v msk (b, t, h)) = map (\<lambda>j. elems v ! b ! j ! h) [0..<S]"
    and "mask_ref (kernel_refs S A n S q k v msk (b, t, h)) = msk ! b"
proof -
  have hq: "has_shape (B, S, H, A) (elems q)" and hk: "has_shape (B, S, H, A) (elems k)"
    and hv: "has_shape (B, S, H, A) (elems v)" and hm: "mask_has_shape (B, S) msk"
    using v sh by (simp_all add: valid_inputs_def)
  show "q_ref (kernel_refs S A n S q k v msk (b, t, h)) = map (\<lambda>i. elems q ! b ! (t * n + i) ! h) [0..<n]"
    by (simp add: kernel_refs_def block_spec_rows[OF hq b h off])
  have kv: "get_value_or_laplacian_block_spec S A S (b, t, h) x = map (\<lambda>j. x ! b ! j ! h) [0..<S]"
    if hs: "has_shape (B, S, H, A) x" for x
  proof -
    have lb: "length (x ! b) = S" using hs b by (auto simp: has_shape_def)
    have row: "take A (x ! b ! j ! h) = x ! b ! j ! h" if "j < S" for j
      using has_shape_nth(4)[OF hs b that h] by simp
    show ?thesis
      unfolding get_value_or_laplacian_block_spec_def Let_def prod.case
      using lb by (auto intro!: nth_equalityI simp: row)
  qed
  show "k_ref (kernel_refs S A n S q k v msk (b, t, h)) = map (\<lambda>j. elems k ! b ! j ! h) [0..<S]"
    by (simp add: kernel_refs_def kv[OF hk])
  show "v_ref (kernel_refs S A n S q k v msk (b, t, h)) = map (\<lambda>j. elems v ! b ! j ! h) [0..<S]"
    by (simp add: kernel_refs_def kv[OF hv])
  show "mask_ref (kernel_refs S A n S q k v msk (b, t, h)) = msk ! b"
    using mask_has_shape_nth[OF hm b] by (simp add: kernel_refs_def get_mask_block_spec_def)
qed

lemma pallas_call_mha_props:
  "shape (pallas_call_mha n kv sh dt q k v msk) = sh"
  "dtype (pallas_call_mha n kv sh dt q k v msk) = dt"
  by (cases sh; simp add: pallas_call_mha_def create_grid_def Let_def)+

lemma pallas_call_mha_row:
  assumes n: "0 < n" and d: "S mod n = 0" and ix: "b < B" "i < S" "h < H"
  shows "elems (pallas_call_mha n kv (B, S, H, A) dt q k v msk) ! b ! i ! h =
         o_ref (mha_kernel (kernel_refs S A n kv q k v msk (b, i div n, h)) (Some n)
                  (\<lambda>axis. [b, i div n, h] ! axis)) ! (i mod n)"
proof -
  have S: "(S div n) * n = S" using d by (simp add: dvd_eq_mod_eq_0 [symmetric])
  have i': "i < (S div n) * n" using ix(2) S by simp
  show ?thesis
    using ix(1,3) block_index(3)[OF n d ix(2)]
    by (simp add: pallas_call_mha_def create_grid_def Let_def nth_concat_blocks[OF i'])
qed

subsection \<open>Both backends in one form\<close>

lemma length_score_row: "length (score_row S A q k msk b i h) = S"
  by (simp add: score_row_def)

lemma reference_scores_score_row:
  assumes v: "valid_inputs q k v msk" and sh: "shape q = (B, S, H, A)"
    and ix: "b < B" "i < S" "h < H"
  shows "elems (reference_mha_scores q k msk) ! b ! i ! h = score_row S A q k msk b i h"
proof -
  have shk: "shape k = (B, S, H, A)" and hm: "mask_has_shape (B, S) msk"
    using v sh by (simp_all add: valid_inputs_def)
  show ?thesis
    unfolding reference_mha_scores_row[OF sh shk hm ix] score_row_def
    by (simp add: conj_commute)
qed

lemma reference_elem:
  assumes v: "valid_inputs q k v msk" and sh: "shape q = (B, S, H, A)"
    and ix: "b < B" "i < S" "h < H" "a < A"
  shows "elems (reference_mha_kernel q k v msk ip) ! b ! i ! h ! a =
         (\<Sum>j\<leftarrow>[0..<S]. softmax_row (score_row S A q k msk b i h) ! j * elems v ! b ! j ! h ! a)"
proof -
  have shk: "shape k = (B, S, H, A)" and shv: "shape v = (B, S, H, A)"
    and hm: "mask_has_shape (B, S) msk"
    using v sh by (simp_all add: valid_inputs_def)
  show ?thesis
    unfolding reference_mha_kernel_elem[OF sh shk shv hm ix]
      reference_scores_score_row[OF v sh ix(1,2,3)] ..
qed

lemma kernel_scores_score_row:
  assumes v: "valid_inputs q k v msk" and sh: "shape q = (B, S, H, A)"
    and n: "0 < n" and d: "S mod n = 0"
    and ix: "b < B" "i < S" "h < H"
  shows "mha_kernel_scores (kernel_refs S A n S q k v msk (b, i div n, h)) (Some n)
           (\<lambda>axis. [b, i div n, h] ! axis) ! (i mod n) = score_row S A q k msk b i h"
proof -
  let ?t = "i div n"
  let ?r = "kernel_refs S A n S q k v msk (b, ?t, h)"
  let ?pid = "\<lambda>axis. [b, ?t, h] ! axis"
  have hq: "has_shape (B, S, H, A) (elems q)" and hk: "has_shape (B, S, H, A) (elems k)"
    and hm: "mask_has_shape (B, S) msk"
    using v sh by (simp_all add: valid_inputs_def)
  note bi = block_index[OF n d ix(2)]
  note kr = kernel_refs_valid[OF v sh ix(1) ix(3) bi(1)]
  have pid: "?pid 1 = ?t" by simp
  have lm: "length (msk ! b) = S" using mask_has_shape_nth[OF hm ix(1)] by simp
  have row: "mha_kernel_scores ?r (Some n) ?pid ! (i mod n) =
         map (\<lambda>j. if mask_ref ?r ! (?pid 1 * n + i mod n) \<and> mask_ref ?r ! j
                  then sum_list (map2 (*) (q_ref ?r ! (i mod n)) (k_ref ?r ! j))
                  else sentinel) [0..<S]"
    by (rule mha_kernel_scores_row[OF n _ _ _ _ bi(3)]) (simp_all add: kr pid lm bi(1))
  show ?thesis
    unfolding row score_row_def
  proof (rule map_cong[OF refl])
    fix j assume "j \<in> set [0..<S]"
    then have j: "j < S" by simp
    have qi: "q_ref ?r ! (i mod n) = elems q ! b ! i ! h"
      using bi(3) by (simp add: kr(1) bi(2))
    have kj: "k_ref ?r ! j = elems k ! b ! j ! h" using j by (simp add: kr(2))
    have dot: "sum_list (map2 (*) (elems q ! b ! i ! h) (elems k ! b ! j ! h)) =
          (\<Sum>a\<leftarrow>[0..<A]. elems q ! b ! i ! h ! a * elems k ! b ! j ! h ! a)"
      by (rule sum_list_map2_nth[OF has_shape_nth(4)[OF hq ix] has_shape_nth(4)[OF hk ix(1) j ix(3)]])
    show "(if mask_ref ?r ! (?pid 1 * n + i mod n) \<and> mask_ref ?r ! j
            then sum_list (map2 (*) (q_ref ?r ! (i mod n)) (k_ref ?r ! j)) else sentinel) =
          (if msk ! b ! i \<and> msk ! b ! j
           then (\<Sum>a\<leftarrow>[0..<A]. elems q ! b ! i ! h ! a * elems k ! b ! j ! h ! a)
           else sentinel)"
      unfolding qi kj dot kr(4) pid bi(2) ..
  qed
qed

lemma pallas_elem:
  assumes v: "valid_inputs q k v msk" and sh: "shape q = (B, S, H, A)"
    and n: "0 < n" and d: "S mod n = 0"
    and ix: "b < B" "i < S" "h < H" "a < A"
  shows "elems (pallas_call_mha n S (B, S, H, A) dt q k v msk) ! b ! i ! h ! a =
         (\<Sum>j\<leftarrow>[0..<S]. softmax_row (score_row S A q k msk b i h) ! j *
                          (if msk ! b ! j then elems v ! b ! j ! h ! a else 0))"
proof -
  let ?t = "i div n"
  let ?r = "kernel_refs S A n S q k v msk (b, ?t, h)"
  let ?pid = "\<lambda>axis. [b, ?t, h] ! axis"
  have hv: "has_shape (B, S, H, A) (elems v)" and hm: "mask_has_shape (B, S) msk"
    using v sh by (simp_all add: valid_inputs_def)
  note bi = block_index[OF n d ix(2)]
  note kr = kernel_refs_valid[OF v sh ix(1) ix(3) bi(1)]
  have pid: "?pid 1 = ?t" by simp
  have lm: "length (msk ! b) = S" using mask_has_shape_nth[OF hm ix(1)] by simp
  have rv: "\<forall>row\<in>set (v_ref ?r). length row = A"
    using has_shape_nth(4)[OF hv ix(1) _ ix(3)] by (auto simp: kr(3))
  have "elems (pallas_call_mha n S (B, S, H, A) dt q k v msk) ! b ! i ! h ! a =
        o_ref (mha_kernel ?r (Some n) ?pid) ! (i mod n) ! a"
    by (simp only: pallas_call_mha_row[OF n d ix(1,2,3)])
  also have "\<dots> = (\<Sum>j\<leftarrow>[0..<S]. softmax_row (mha_kernel_scores ?r (Some n) ?pid ! (i mod n)) ! j *
                          (if mask_ref ?r ! j then v_ref ?r ! j ! a else 0))"
    by (rule o_ref_mha_kernel_nth[OF n _ _ _ rv _ bi(3) ix(4)]) (simp_all add: kr pid lm bi(1))
  also have "\<dots> = (\<Sum>j\<leftarrow>[0..<S]. softmax_row (score_row S A q k msk b i h) ! j *
                          (if msk ! b ! j then elems v ! b ! j ! h ! a else 0))"
    unfolding kernel_scores_score_row[OF v sh n d ix(1,2,3)] kr(4)
    by (rule arg_cong[where f=sum_list], rule map_cong[OF refl]) (simp add: kr(3))
  finally show ?thesis .
qed

lemma planner_accepts:
  assumes "compute_q_and_kv_block_len S qbl = Inr (n, kvl)"
  shows "0 < n" "S mod n = 0" "kvl = S"
  using assms by (auto simp: compute_q_and_kv_block_len_def Let_def split: if_splits)

lemma mha_pallas:
  assumes "shape q = (B, S, H, A)" "compute_q_and_kv_block_len S qbl = Inr (n, kvl)"
  shows "mha q k v msk im ''pallas'' ip qbl nw ns =
         Inr (pallas_call_mha n S (B, S, H, A) (dtype q) q k v msk)"
  using assms planner_accepts(3)[OF assms(2)] by (simp add: mha_def)

lemma mha_reference:
  assumes "shape q = (B, S, H, A)" "compute_q_and_kv_block_len S qbl = Inr (n, kvl)"
  shows "mha q k v msk im ''reference'' ip qbl nw ns = Inr (reference_mha_kernel q k v msk False)"
  using assms by (simp add: mha_def)

lemma score_row_masked:
  assumes "\<not> msk ! b ! i"
  shows "score_row S A q k msk b i h = replicate S sentinel"
  using assms by (simp add: score_row_def map_replicate_const)

lemma sum_list_filter_if:
  "(\<Sum>j\<leftarrow>filter P xs. f j) = (\<Sum>j\<leftarrow>xs. if P j then f j else (0::real))"
  by (induction xs) simp_all

lemma has_shape_nthI:
  assumes "length x = d0"
    and "\<And>b. b < d0 \<Longrightarrow> length (x ! b) = d1"
    and "\<And>b i. b < d0 \<Longrightarrow> i < d1 \<Longrightarrow> length (x ! b ! i) = d2"
    and "\<And>b i h. b < d0 \<Longrightarrow> i < d1 \<Longrightarrow> h < d2 \<Longrightarrow> length (x ! b ! i ! h) = d3"
  shows "has_shape (d0, d1, d2, d3) x"
  unfolding has_shape_def prod.case all_set_conv_all_nth
  using assms by simp

lemma pallas_call_mha_lengths:
  assumes n: "0 < n" and d: "S mod n = 0"
  shows "length (elems (pallas_call_mha n kv (B, S, H, A) dt q k v msk)) = B"
    and "b < B \<Longrightarrow> length (elems (pallas_call_mha n kv (B, S, H, A) dt q k v msk) ! b) = S"
    and "b < B \<Longrightarrow> i < S \<Longrightarrow> length (elems (pallas_call_mha n kv (B, S, H, A) dt q k v msk) ! b ! i) = H"
proof -
  have S: "(S div n) * n = S" using d by (simp add: dvd_eq_mod_eq_0 [symmetric])
  show "length (elems (pallas_call_mha n kv (B, S, H, A) dt q k v msk)) = B"
    by (simp add: pallas_call_mha_def create_grid_def Let_def)
  show "b < B \<Longrightarrow> length (elems (pallas_call_mha n kv (B, S, H, A) dt q k v msk) ! b) = S"
    by (simp add: pallas_call_mha_def create_grid_def Let_def length_concat_blocks S)
  show "length (elems (pallas_call_mha n kv (B, S, H, A) dt q k v msk) ! b ! i) = H"
    if "b < B" "i < S"
  proof -
    have i': "i < (S div n) * n" using that(2) S by simp
    show ?thesis
      using that(1) by (simp add: pallas_call_mha_def create_grid_def Let_def nth_concat_blocks[OF i'])
  qed
qed

lemma has_shape_pallas_call_mha:
  assumes v: "valid_inputs q k v msk" and sh: "shape q = (B, S, H, A)"
    and n: "0 < n" and d: "S mod n = 0"
  shows "has_shape (B, S, H, A) (elems (pallas_call_mha n S (B, S, H, A) dt q k v msk))"
proof (rule has_shape_nthI)
  fix b i h assume ix: "b < B" "i < S" "h < H"
  let ?r = "kernel_refs S A n S q k v msk (b, i div n, h)"
  let ?pid = "\<lambda>axis. [b, i div n, h] ! axis"
  have hv: "has_shape (B, S, H, A) (elems v)" and hm: "mask_has_shape (B, S) msk"
    using v sh by (simp_all add: valid_inputs_def)
  note bi = block_index[OF n d ix(2)]
  note kr = kernel_refs_valid[OF v sh ix(1) ix(3) bi(1)]
  have lm: "length (msk ! b) = S" using mask_has_shape_nth[OF hm ix(1)] by simp
  have S: "0 < S" using ix(2) by simp
  have hd: "length (hd (v_ref ?r)) = A"
    using S has_shape_nth(4)[OF hv ix(1) S ix(3)] by (simp add: kr(3) hd_map upt_conv_Cons)
  have "length (o_ref (mha_kernel ?r (Some n) ?pid) ! (i mod n)) = A"
    by (rule length_o_ref_mha_kernel_row[OF n _ _ _ hd bi(3)]) (simp_all add: kr lm bi(1))
  then show "length (elems (pallas_call_mha n S (B, S, H, A) dt q k v msk) ! b ! i ! h) = A"
    by (simp only: pallas_call_mha_row[OF n d ix])
qed (simp_all add: pallas_call_mha_lengths[OF n d])

lemma promote_types_same: "promote_types t t = t"
  by (cases t) simp_all

lemma backend_difference:
  assumes v: "valid_inputs q k v msk" and sh: "shape q = (B, S, H, A)"
    and n: "0 < n" and d: "S mod n = 0"
    and ix: "b < B" "i < S" "h < H" "a < A"
  shows "elems (reference_mha_kernel q k v msk ip) ! b ! i ! h ! a -
         elems (pallas_call_mha n S (B, S, H, A) dt q k v msk) ! b ! i ! h ! a =
         (\<Sum>j\<leftarrow>[0..<S]. softmax_row (score_row S A q k msk b i h) ! j *
                          (if msk ! b ! j then 0 else elems v ! b ! j ! h ! a))"
  unfolding reference_elem[OF v sh ix] pallas_elem[OF v sh n d ix] sum_list_subtractf [symmetric]
  by (rule arg_cong[where f=sum_list], rule map_cong[OF refl]) simp


lemma backend_equal_elem:
  assumes v: "valid_inputs q k v msk" and sh: "shape q = (B, S, H, A)"
    and n: "0 < n" and d: "S mod n = 0"
    and ix: "b < B" "i < S" "h < H" "a < A"
    and z: "\<forall>j<S. \<not> msk ! b ! j \<longrightarrow> elems v ! b ! j ! h ! a = 0"
  shows "elems (pallas_call_mha n S (B, S, H, A) dt q k v msk) ! b ! i ! h ! a =
         elems (reference_mha_kernel q k v msk ip) ! b ! i ! h ! a"
proof -
  have "(\<Sum>j\<leftarrow>[0..<S]. softmax_row (score_row S A q k msk b i h) ! j *
                          (if msk ! b ! j then 0 else elems v ! b ! j ! h ! a)) =
        (\<Sum>j\<leftarrow>[0..<S]. 0)"
    by (rule arg_cong[where f=sum_list], rule map_cong[OF refl]) (use z in auto)
  then show ?thesis using backend_difference[OF v sh n d ix, of ip dt] by simp
qed

lemma pallas_masked_row_elem:
  assumes v: "valid_inputs q k v msk" and sh: "shape q = (B, S, H, A)"
    and n: "0 < n" and d: "S mod n = 0"
    and ix: "b < B" "i < S" "h < H" "a < A"
    and masked: "\<not> msk ! b ! i"
  shows "elems (pallas_call_mha n S (B, S, H, A) dt q k v msk) ! b ! i ! h ! a =
        (\<Sum>j\<leftarrow>filter (\<lambda>j. msk ! b ! j) [0..<S]. elems v ! b ! j ! h ! a) / real S"
proof -
  have w: "softmax_row (replicate S sentinel) = replicate S (1 / real S)"
    by (rule nth_equalityI) (simp_all add: length_softmax_row softmax_row_const[where c=sentinel])
  have "elems (pallas_call_mha n S (B, S, H, A) dt q k v msk) ! b ! i ! h ! a =
      (\<Sum>j\<leftarrow>[0..<S]. (1 / real S) * (if msk ! b ! j then elems v ! b ! j ! h ! a else 0))"
    unfolding pallas_elem[OF v sh n d ix] score_row_masked[OF masked] w
    by (rule arg_cong[where f=sum_list], rule map_cong[OF refl]) simp
  also have "\<dots> = (1 / real S) * (\<Sum>j\<leftarrow>[0..<S]. if msk ! b ! j then elems v ! b ! j ! h ! a else 0)"
    by (rule sum_list_const_mult)
  finally show ?thesis by (simp add: sum_list_filter_if)
qed

lemma reference_masked_row_elem:
  assumes v: "valid_inputs q k v msk" and sh: "shape q = (B, S, H, A)"
    and ix: "b < B" "i < S" "h < H" "a < A"
    and masked: "\<not> msk ! b ! i"
  shows "elems (reference_mha_kernel q k v msk ip) ! b ! i ! h ! a =
        (\<Sum>j\<leftarrow>[0..<S]. elems v ! b ! j ! h ! a) / real S"
proof -
  have w: "softmax_row (replicate S sentinel) = replicate S (1 / real S)"
    by (rule nth_equalityI) (simp_all add: length_softmax_row softmax_row_const[where c=sentinel])
  have "elems (reference_mha_kernel q k v msk ip) ! b ! i ! h ! a =
      (\<Sum>j\<leftarrow>[0..<S]. (1 / real S) * elems v ! b ! j ! h ! a)"
    unfolding reference_elem[OF v sh ix] score_row_masked[OF masked] w
    by (rule arg_cong[where f=sum_list], rule map_cong[OF refl]) simp
  also have "\<dots> = (1 / real S) * (\<Sum>j\<leftarrow>[0..<S]. elems v ! b ! j ! h ! a)"
    by (rule sum_list_const_mult)
  finally show ?thesis by simp
qed



subsection \<open>Inputs that agree on the valid positions\<close>

lemma o_ref_mha_kernel_cong:
  assumes "q_ref r = q_ref r'" "mask_ref r = mask_ref r'"
    and "where_rows (mask_ref r) (k_ref r) 0 = where_rows (mask_ref r') (k_ref r') 0"
    and "where_rows (mask_ref r) (v_ref r) 0 = where_rows (mask_ref r') (v_ref r') 0"
  shows "o_ref (mha_kernel r qbl pid) = o_ref (mha_kernel r' qbl pid)"
proof -
  have kk: "where_rows (mask_ref r') (k_ref r) 0 = where_rows (mask_ref r') (k_ref r') 0"
    using assms(2,3) by simp
  have vv: "where_rows (mask_ref r') (v_ref r) 0 = where_rows (mask_ref r') (v_ref r') 0"
    using assms(2,4) by simp
  show ?thesis
    by (cases qbl)
       (simp_all add: mha_kernel_def mha_kernel_probs_def mha_kernel_scores_def
          mha_kernel_q_mask_def Let_def assms(1,2) kk vv)
qed

lemma where_rows_agree:
  assumes "length xs = length m" "length ys = length m"
    and "\<And>j. j < length m \<Longrightarrow> length (xs ! j) = length (ys ! j)"
    and "\<And>j. j < length m \<Longrightarrow> m ! j \<Longrightarrow> xs ! j = ys ! j"
  shows "where_rows m xs y = where_rows m ys y"
proof (rule nth_equalityI)
  show "length (where_rows m xs y) = length (where_rows m ys y)"
    using assms(1,2) by (simp add: length_where_rows)
next
  fix j assume "j < length (where_rows m xs y)"
  then have j: "j < length m" using assms(1) by (simp add: length_where_rows)
  show "where_rows m xs y ! j = where_rows m ys y ! j"
  proof (cases "m ! j")
    case True
    then show ?thesis using j assms(1,2,4) by (simp add: where_rows_nth)
  next
    case False
    have "map (\<lambda>e. y) (xs ! j) = map (\<lambda>e. y) (ys ! j)"
      using assms(3)[OF j] by (simp add: map_replicate_const)
    then show ?thesis using False j assms(1,2) by (simp add: where_rows_nth)
  qed
qed

lemma pallas_call_mha_cong:
  assumes v: "valid_inputs q k v msk" and v': "valid_inputs q k' v' msk"
    and sh: "shape q = (B, S, H, A)"
    and n: "0 < n" and d: "S mod n = 0"
    and agree: "\<And>b j. b < B \<Longrightarrow> j < S \<Longrightarrow> msk ! b ! j \<Longrightarrow>
                 elems k ! b ! j = elems k' ! b ! j \<and> elems v ! b ! j = elems v' ! b ! j"
  shows "pallas_call_mha n S (B, S, H, A) dt q k v msk = pallas_call_mha n S (B, S, H, A) dt q k' v' msk"
proof -
  have hk: "has_shape (B, S, H, A) (elems k)" and hk': "has_shape (B, S, H, A) (elems k')"
    and hv: "has_shape (B, S, H, A) (elems v)" and hv': "has_shape (B, S, H, A) (elems v')"
    and hm: "mask_has_shape (B, S) msk"
    using v v' sh by (simp_all add: valid_inputs_def)
  have Sn: "(S div n) * n = S" using d by (simp add: dvd_eq_mod_eq_0 [symmetric])
  have inst: "o_ref (mha_kernel (kernel_refs S A n S q k v msk (b, t, h)) (Some n) pid) =
              o_ref (mha_kernel (kernel_refs S A n S q k' v' msk (b, t, h)) (Some n) pid)"
    if b: "b < B" and t: "t < S div n" and h: "h < H" for b t h pid
  proof -
    have "Suc t * n \<le> (S div n) * n" using t by (intro mult_le_mono1) simp
    then have off: "t * n + n \<le> S" using Sn by (simp add: add.commute)
    note kr = kernel_refs_valid[OF v sh b h off]
    note kr' = kernel_refs_valid[OF v' sh b h off]
    have lm: "length (msk ! b) = S" using mask_has_shape_nth[OF hm b] by simp
    show ?thesis
    proof (rule o_ref_mha_kernel_cong)
      show "q_ref (kernel_refs S A n S q k v msk (b, t, h)) =
            q_ref (kernel_refs S A n S q k' v' msk (b, t, h))"
        by (simp only: kr(1) kr'(1))
      show "mask_ref (kernel_refs S A n S q k v msk (b, t, h)) =
            mask_ref (kernel_refs S A n S q k' v' msk (b, t, h))"
        by (simp only: kr(4) kr'(4))
      show "where_rows (mask_ref (kernel_refs S A n S q k v msk (b, t, h)))
              (k_ref (kernel_refs S A n S q k v msk (b, t, h))) 0 =
            where_rows (mask_ref (kernel_refs S A n S q k' v' msk (b, t, h)))
              (k_ref (kernel_refs S A n S q k' v' msk (b, t, h))) 0"
        unfolding kr kr'
      proof (rule where_rows_agree)
        fix j assume "j < length (msk ! b)"
        then have j: "j < S" using lm by simp
        show "length (map (\<lambda>j. elems k ! b ! j ! h) [0..<S] ! j) =
              length (map (\<lambda>j. elems k' ! b ! j ! h) [0..<S] ! j)"
          using j has_shape_nth(4)[OF hk b j h] has_shape_nth(4)[OF hk' b j h] by simp
        show "map (\<lambda>j. elems k ! b ! j ! h) [0..<S] ! j = map (\<lambda>j. elems k' ! b ! j ! h) [0..<S] ! j"
          if "msk ! b ! j"
          using j agree[OF b j that] by simp
      qed (simp_all add: lm)
      show "where_rows (mask_ref (kernel_refs S A n S q k v msk (b, t, h)))
              (v_ref (kernel_refs S A n S q k v msk (b, t, h))) 0 =
            where_rows (mask_ref (kernel_refs S A n S q k' v' msk (b, t, h)))
              (v_ref (kernel_refs S A n S q k' v' msk (b, t, h))) 0"
        unfolding kr kr'
      proof (rule where_rows_agree)
        fix j assume "j < length (msk ! b)"
        then have j: "j < S" using lm by simp
        show "length (map (\<lambda>j. elems v ! b ! j ! h) [0..<S] ! j) =
              length (map (\<lambda>j. elems v' ! b ! j ! h) [0..<S] ! j)"
          using j has_shape_nth(4)[OF hv b j h] has_shape_nth(4)[OF hv' b j h] by simp
        show "map (\<lambda>j. elems v ! b ! j ! h) [0..<S] ! j = map (\<lambda>j. elems v' ! b ! j ! h) [0..<S] ! j"
          if "msk ! b ! j"
          using j agree[OF b j that] by simp
      qed (simp_all add: lm)
    qed
  qed
  have "map (\<lambda>b. concat (map (\<lambda>t. map (\<lambda>r. map (\<lambda>h.
            o_ref (mha_kernel (kernel_refs S A n S q k v msk (b, t, h)) (Some n)
                     (\<lambda>axis. [b, t, h] ! axis)) ! r) [0..<H]) [0..<n]) [0..<S div n])) [0..<B] =
        map (\<lambda>b. concat (map (\<lambda>t. map (\<lambda>r. map (\<lambda>h.
            o_ref (mha_kernel (kernel_refs S A n S q k' v' msk (b, t, h)) (Some n)
                     (\<lambda>axis. [b, t, h] ! axis)) ! r) [0..<H]) [0..<n]) [0..<S div n])) [0..<B]"
  proof (rule map_cong[OF refl], rule arg_cong[where f=concat], rule map_cong[OF refl],
      rule map_cong[OF refl], rule map_cong[OF refl])
    fix b t r h
    assume "b \<in> set [0..<B]" "t \<in> set [0..<S div n]" "r \<in> set [0..<n]" "h \<in> set [0..<H]"
    then show "o_ref (mha_kernel (kernel_refs S A n S q k v msk (b, t, h)) (Some n)
                     (\<lambda>axis. [b, t, h] ! axis)) ! r =
               o_ref (mha_kernel (kernel_refs S A n S q k' v' msk (b, t, h)) (Some n)
                     (\<lambda>axis. [b, t, h] ! axis)) ! r"
      by (simp add: inst)
  qed
  then show ?thesis
    by (simp add: pallas_call_mha_def create_grid_def Let_def)
qed

lemma score_row_cong:
  assumes hk: "has_shape (B, S, H, A) (elems k)" and hk': "has_shape (B, S, H, A) (elems k')"
    and agree: "\<And>j. j < S \<Longrightarrow> msk ! b ! j \<Longrightarrow> elems k ! b ! j = elems k' ! b ! j"
  shows "score_row S A q k msk b i h = score_row S A q k' msk b i h"
  unfolding score_row_def
  by (rule map_cong[OF refl]) (auto simp: agree)

lemma reference_mha_kernel_cong:
  assumes v: "valid_inputs q k v msk" and v': "valid_inputs q k' v msk"
    and sh: "shape q = (B, S, H, A)" and dk: "dtype k' = dtype k"
    and agree: "\<And>b j. b < B \<Longrightarrow> j < S \<Longrightarrow> msk ! b ! j \<Longrightarrow> elems k ! b ! j = elems k' ! b ! j"
  shows "reference_mha_kernel q k v msk ip = reference_mha_kernel q k' v msk ip"
proof -
  have shk: "shape k = (B, S, H, A)" and shk': "shape k' = (B, S, H, A)"
    and shv: "shape v = (B, S, H, A)"
    and hk: "has_shape (B, S, H, A) (elems k)" and hk': "has_shape (B, S, H, A) (elems k')"
    and hm: "mask_has_shape (B, S) msk"
    using v v' sh by (simp_all add: valid_inputs_def)
  note p = reference_mha_kernel_props[OF sh shk shv, of msk ip]
  note p' = reference_mha_kernel_props[OF sh shk' shv, of msk ip]
  have e: "elems (reference_mha_kernel q k v msk ip) = elems (reference_mha_kernel q k' v msk ip)"
    unfolding p(3) p'(3)
  proof (rule tab4_cong)
    fix b i h a assume ix: "b < B" "i < S" "h < H" "a < A"
    have "elems (reference_mha_probs q k msk) ! b ! i ! h =
          elems (reference_mha_probs q k' msk) ! b ! i ! h"
      unfolding reference_mha_probs_row[OF sh shk hm ix(1,2,3)]
        reference_mha_probs_row[OF sh shk' hm ix(1,2,3)]
        reference_scores_score_row[OF v sh ix(1,2,3)]
        reference_scores_score_row[OF v' sh ix(1,2,3)]
      by (simp only: score_row_cong[OF hk hk' agree[OF ix(1)]])
    then show "(\<Sum>j\<leftarrow>[0..<S]. elems (reference_mha_probs q k msk) ! b ! i ! h ! j * elems v ! b ! j ! h ! a) =
          (\<Sum>j\<leftarrow>[0..<S]. elems (reference_mha_probs q k' msk) ! b ! i ! h ! j * elems v ! b ! j ! h ! a)"
      by simp
  qed
  show ?thesis
    by (rule array4.equality) (simp_all add: p(1,2) p'(1,2) e dk)
qed

lemma has_shape_lengths:
  assumes hs: "has_shape (B, S, H, A) x"
  shows "length x = B"
    and "\<And>b. b < B \<Longrightarrow> length (x ! b) = S"
    and "\<And>b i. b < B \<Longrightarrow> i < S \<Longrightarrow> length (x ! b ! i) = H"
    and "\<And>b i h. b < B \<Longrightarrow> i < S \<Longrightarrow> h < H \<Longrightarrow> length (x ! b ! i ! h) = A"
  using hs unfolding has_shape_def prod.case all_set_conv_all_nth by simp_all

lemma has_shape_update:
  assumes hs: "has_shape (B, S, H, A) x" and b: "b < B" and j: "j < S"
    and r: "length row = H" "\<forall>u\<in>set row. length u = A"
  shows "has_shape (B, S, H, A) (x[b := (x ! b)[j := row]])"
proof (rule has_shape_nthI)
  note l = has_shape_lengths[OF hs]
  show "length (x[b := (x ! b)[j := row]]) = B" using l(1) by simp
  show "length (x[b := (x ! b)[j := row]] ! b') = S" if "b' < B" for b'
    using that l(1) l(2)[of b'] by (cases "b' = b") simp_all
  show "length (x[b := (x ! b)[j := row]] ! b' ! i) = H" if "b' < B" "i < S" for b' i
    using that l(1) l(2)[of b'] l(3)[of b' i] r(1)
    by (cases "b' = b"; cases "i = j") simp_all
  show "length (x[b := (x ! b)[j := row]] ! b' ! i ! h) = A" if "b' < B" "i < S" "h < H" for b' i h
    using that l(1) l(2)[of b'] l(3)[of b' i] l(4)[of b' i h] r
    by (cases "b' = b"; cases "i = j") simp_all
qed

lemma update_agree:
  assumes hs: "has_shape (B, S, H, A) x" and b: "b < B" and j: "j < S"
    and m: "\<not> msk ! b ! j" and ix: "b' < B" "j' < S" "msk ! b' ! j'"
  shows "x ! b' ! j' = x[b := (x ! b)[j := row]] ! b' ! j'"
proof -
  note l = has_shape_lengths[OF hs]
  show ?thesis
    using l(1) l(2)[of b'] m ix b j by (cases "b' = b"; cases "j' = j") auto
qed

lemma valid_inputs_update:
  assumes v: "valid_inputs q k v msk" and sh: "shape q = (B, S, H, A)"
    and b: "b < B" and j: "j < S"
    and kr: "length krow = H" "\<forall>u\<in>set krow. length u = A"
    and vr: "length vrow = H" "\<forall>u\<in>set vrow. length u = A"
  shows "valid_inputs q (k\<lparr>elems := (elems k)[b := (elems k ! b)[j := krow]]\<rparr>)
           (v\<lparr>elems := (elems v)[b := (elems v ! b)[j := vrow]]\<rparr>) msk"
  using v sh has_shape_update[OF _ b j kr, of "elems k"] has_shape_update[OF _ b j vr, of "elems v"]
  by (simp add: valid_inputs_def)

lemma list_update_same_twice: "b < length x \<Longrightarrow> x[b := (x ! b)[j := x ! b ! j]] = x"
  by (simp add: list_update_same_conv)

lemma sum_list_upt_delta:
  "j < S \<Longrightarrow> (\<Sum>j'\<leftarrow>[0..<S]. if j' = j then x else (0::real)) = x"
proof (induction S)
  case 0
  then show ?case by simp
next
  case (Suc S)
  show ?case
  proof (cases "j = S")
    case True
    have "(\<Sum>j'\<leftarrow>[0..<S]. if j' = j then x else 0) = (\<Sum>j'\<leftarrow>[0..<S]. 0)"
      by (rule arg_cong[where f=sum_list], rule map_cong[OF refl]) (simp add: True)
    then show ?thesis using True by simp
  next
    case False
    then have "j < S" using Suc.prems by simp
    then show ?thesis using Suc.IH False by simp
  qed
qed

lemma reference_value_influence:
  assumes v: "valid_inputs q k v msk" and sh: "shape q = (B, S, H, A)"
    and b: "b < B" and j: "j < S" and masked: "\<not> msk ! b ! j"
    and vr: "length vrow = H" "\<forall>u\<in>set vrow. length u = A"
    and ix: "i < S" "h < H" "a < A" and valid: "msk ! b ! i"
  shows "\<bar>elems (reference_mha_kernel q k (v\<lparr>elems := (elems v)[b := (elems v ! b)[j := vrow]]\<rparr>) msk ip)
            ! b ! i ! h ! a -
          elems (reference_mha_kernel q k v msk ip) ! b ! i ! h ! a\<bar> \<le>
         exp (sentinel - (\<Sum>a\<leftarrow>[0..<A]. elems q ! b ! i ! h ! a * elems k ! b ! i ! h ! a)) *
         \<bar>vrow ! h ! a - elems v ! b ! j ! h ! a\<bar>"
proof -
  let ?v' = "v\<lparr>elems := (elems v)[b := (elems v ! b)[j := vrow]]\<rparr>"
  let ?row = "score_row S A q k msk b i h"
  let ?d = "vrow ! h ! a - elems v ! b ! j ! h ! a"
  have hv: "has_shape (B, S, H, A) (elems v)" using v sh by (simp add: valid_inputs_def)
  note l = has_shape_lengths[OF hv]
  have v': "valid_inputs q k ?v' msk"
    using v sh has_shape_update[OF hv b j vr] by (simp add: valid_inputs_def)
  have el: "(elems v)[b := (elems v ! b)[j := vrow]] ! b ! j' ! h ! a =
            (if j' = j then vrow ! h ! a else elems v ! b ! j' ! h ! a)"
    if "j' < S" for j'
    using that b j l(1) l(2)[OF b] by simp
  have "elems (reference_mha_kernel q k ?v' msk ip) ! b ! i ! h ! a -
        elems (reference_mha_kernel q k v msk ip) ! b ! i ! h ! a =
        (\<Sum>j'\<leftarrow>[0..<S]. if j' = j then softmax_row ?row ! j * ?d else 0)"
    unfolding reference_elem[OF v sh b ix] reference_elem[OF v' sh b ix]
      sum_list_subtractf [symmetric]
    by (rule arg_cong[where f=sum_list], rule map_cong[OF refl]) (simp add: el algebra_simps)
  also have "\<dots> = softmax_row ?row ! j * ?d" by (rule sum_list_upt_delta[OF j])
  finally have diff: "elems (reference_mha_kernel q k ?v' msk ip) ! b ! i ! h ! a -
        elems (reference_mha_kernel q k v msk ip) ! b ! i ! h ! a = softmax_row ?row ! j * ?d" .
  have ri: "?row ! i = (\<Sum>a\<leftarrow>[0..<A]. elems q ! b ! i ! h ! a * elems k ! b ! i ! h ! a)"
    using ix(1) valid by (simp add: score_row_def)
  have rj: "?row ! j = sentinel" using j masked by (simp add: score_row_def)
  have "softmax_row ?row ! j \<le> exp (?row ! j - ?row ! i)"
    by (rule softmax_row_le) (simp_all add: length_score_row ix(1) j)
  then have le: "softmax_row ?row ! j \<le>
      exp (sentinel - (\<Sum>a\<leftarrow>[0..<A]. elems q ! b ! i ! h ! a * elems k ! b ! i ! h ! a))"
    by (simp only: rj ri)
  have nn: "0 \<le> softmax_row ?row ! j"
    by (rule softmax_row_nonneg) (simp add: length_score_row j)
  have "\<bar>softmax_row ?row ! j * ?d\<bar> = softmax_row ?row ! j * \<bar>?d\<bar>"
    using nn by (simp add: abs_mult)
  also have "\<dots> \<le> exp (sentinel - (\<Sum>a\<leftarrow>[0..<A]. elems q ! b ! i ! h ! a * elems k ! b ! i ! h ! a)) * \<bar>?d\<bar>"
    by (rule mult_right_mono[OF le]) simp
  finally show ?thesis unfolding diff .
qed

subsection \<open>The example inputs\<close>

lemma valid_inputs_ex2: "valid_inputs ex2_q ex2_q ex2_v ex2_mask"
  by (simp add: valid_inputs_def ex2_q_def ex2_v_def ex2_mask_def has_shape_def mask_has_shape_def)

lemma valid_inputs_ex2_zero: "valid_inputs ex2_q ex2_q ex2_q ex2_mask"
  by (simp add: valid_inputs_def ex2_q_def ex2_mask_def has_shape_def mask_has_shape_def)


lemma valid_inputs_ex4_f16: "valid_inputs ex4_f16 ex4 ex4 ex4_mask"
  by (simp add: valid_inputs_def ex4_f16_def ex4_def ex4_mask_def has_shape_def mask_has_shape_def)

lemma valid_inputs_ex4: "valid_inputs ex4 ex4 ex4 ex4_mask"
  by (simp add: valid_inputs_def ex4_def ex4_mask_def has_shape_def mask_has_shape_def)

lemma upt_2: "[0..<2] = [0, Suc 0]"
  by (simp add: upt_rec numeral_2_eq_2)


section \<open>Properties of the dispatcher\<close>

text \<open>
  C9. The parameter \<open>input_mask\<close> is accepted and ignored: the result of \<open>mha\<close>, an error
  as well as an output, is the same for any two values of \<open>input_mask\<close>, of any types.
\<close>

theorem mha_input_mask_ignored:
  "mha q k v msk (input_mask1 :: 'a) kern interpret q_block_len num_warps num_stages =
   mha q k v msk (input_mask2 :: 'b) kern interpret q_block_len num_warps num_stages"
  by (simp add: mha_def)

text \<open>
  C3. For a kernel name other than the two accepted ones (\<^verbatim>\<open>"pallas"\<close>, the blocked
  backend, and \<^verbatim>\<open>"reference"\<close>), \<open>mha\<close> returns an error and no output: the planner's
  configuration error, or the \<^verbatim>\<open>ValueError\<close> for the unknown name, both raised before a
  kernel is called.
\<close>

theorem mha_unknown_kernel_fails:
  assumes "kern \<noteq> ''pallas''" and "kern \<noteq> ''reference''"
  shows "\<exists>e. mha q k v msk input_mask kern interpret q_block_len num_warps num_stages = Inl e \<and>
             (e = ConfigurationError \<or>
              e = ValueError (''Unknown multi-head attention kernel: '' @ kern))"
  using assms
  by (cases "shape q") (auto simp: mha_def compute_q_and_kv_block_len_def Let_def)

theorem mha_unknown_kernel_fails_witness:
  "''triton'' \<noteq> ''pallas'' \<and> ''triton'' \<noteq> ''reference'' \<and>
   (\<exists>e. mha ex4 ex4 ex4 ex4_mask () ''triton'' False (Some 2) 2 2 = Inl e \<and>
        (e = ConfigurationError \<or>
         e = ValueError (''Unknown multi-head attention kernel: '' @ ''triton'')))"
proof -
  have h1: "''triton'' \<noteq> ''pallas''" by simp
  have h2: "''triton'' \<noteq> ''reference''" by simp
  show ?thesis
    using h1 h2 mha_unknown_kernel_fails [OF h1 h2, of ex4 ex4 ex4 ex4_mask "()" False "Some 2" 2 2]
    by blast
qed

text \<open>
  C8. The planner fails with a configuration error when the chosen query block length
  (the override, or the sequence length without one) does not evenly divide the sequence
  length, and otherwise returns the chosen query block length together with the whole
  sequence length as the key/value block length.
\<close>

theorem compute_q_and_kv_block_len_contract:
  assumes "c = (case q_block_len of None \<Rightarrow> seq_len | Some n \<Rightarrow> n)"
  shows "(\<not> (c \<noteq> 0 \<and> seq_len mod c = 0) \<longrightarrow>
            compute_q_and_kv_block_len seq_len q_block_len = Inl ConfigurationError) \<and>
         (c \<noteq> 0 \<and> seq_len mod c = 0 \<longrightarrow>
            compute_q_and_kv_block_len seq_len q_block_len = Inr (c, seq_len))"
  using assms by (cases q_block_len) (simp_all add: compute_q_and_kv_block_len_def)

theorem compute_q_and_kv_block_len_contract_witness:
  "compute_q_and_kv_block_len 4 (Some 3) = Inl ConfigurationError \<and>
   compute_q_and_kv_block_len 4 (Some 2) = Inr (2, 4) \<and>
   compute_q_and_kv_block_len 4 None = Inr (4, 4)"
proof -
  have c3: "(3::nat) = (case Some 3 of None \<Rightarrow> 4 | Some n \<Rightarrow> n)" by simp
  have c2: "(2::nat) = (case Some 2 of None \<Rightarrow> 4 | Some n \<Rightarrow> n)" by simp
  have c4: "(4::nat) = (case None of None \<Rightarrow> 4 | Some n \<Rightarrow> n)" by simp
  show ?thesis
    using compute_q_and_kv_block_len_contract [OF c3]
          compute_q_and_kv_block_len_contract [OF c2]
          compute_q_and_kv_block_len_contract [OF c4]
    by simp
qed

text \<open>
  C4, as the code has it. With the reference backend the planner still runs first: when
  it rejects the sequence length and the override, \<open>mha\<close> fails with the planner's error;
  when it accepts them, \<open>mha\<close> returns the result of the reference kernel, in which the
  override and the other tiling parameters do not occur.
\<close>

theorem mha_reference_dispatch:
  "mha q k v msk input_mask ''reference'' interpret q_block_len num_warps num_stages =
     (case compute_q_and_kv_block_len (fst (snd (shape q))) q_block_len of
        Inl e \<Rightarrow> Inl e
      | Inr _ \<Rightarrow> Inr (reference_mha_kernel q k v msk False))"
  by (cases "shape q") (simp add: mha_def split: sum.splits)

text \<open>
  C4 as stated fails: on a valid input of sequence length 4, the reference backend with
  the query block length 3 does not return the reference kernel's result but the
  planner's configuration error.
\<close>

theorem mha_reference_override_counterexample:
  "valid_inputs ex4 ex4 ex4 ex4_mask \<and>
   mha ex4 ex4 ex4 ex4_mask () ''reference'' False (Some 3) 2 2 = Inl ConfigurationError \<and>
   mha ex4 ex4 ex4 ex4_mask () ''reference'' False (Some 3) 2 2 \<noteq>
     Inr (reference_mha_kernel ex4 ex4 ex4 ex4_mask False)"
  using valid_inputs_ex4
  by (simp add: mha_def compute_q_and_kv_block_len_def ex4_def)

section \<open>Properties of the kernels\<close>

text \<open>
  In the theorems below a valid input has the shape \<open>(B, S, H, A)\<close>, and the planner has
  accepted the sequence length \<open>S\<close> with the query block length \<open>n\<close>. The kernel instance
  that computes the query position \<open>i\<close> of batch element \<open>b\<close> and head \<open>h\<close> is the one at the
  grid coordinate \<open>(b, i div n, h)\<close>, in whose block the position is row \<open>i mod n\<close>.
\<close>



text \<open>
  A masked query position, for the dtypes in which the literal \<^verbatim>\<open>-1e20\<close> is finite. When
  \<open>mask[b, i]\<close> is false, all scores of the row of \<open>i\<close> in the device kernel are the
  sentinel and the softmax gives every key position the weight \<open>1 / S\<close>. The blocked
  backend zeroes the value rows of invalid positions and returns \<open>1 / S\<close> times the sum
  of \<open>V[b, j, h, a]\<close> over the valid positions \<open>j\<close>; the reference backend returns \<open>1 / S\<close>
  times the sum over all positions. (This is the statement of C10. For float16 scores the
  reference kernel stores the literal as \<open>-inf\<close> and the row is \<open>NaN\<close>, which is why the
  dtype is restricted here.)
\<close>

lemma masked_query_row_uniform:
  assumes v: "valid_inputs q k v msk" and sh: "shape q = (B, S, H, A)"
    and fin: "literal_finite (promote_types (dtype q) (dtype k))"
    and pl: "compute_q_and_kv_block_len S q_block_len = Inr (n, kv_block_len)"
    and ix: "b < B" "i < S" "h < H" "a < A"
    and masked: "\<not> msk ! b ! i"
  shows "mha_kernel_scores (kernel_refs S A n S q k v msk (b, i div n, h)) (Some n)
           (\<lambda>axis. [b, i div n, h] ! axis) ! (i mod n) = replicate S sentinel \<and>
         mha_kernel_probs (kernel_refs S A n S q k v msk (b, i div n, h)) (Some n)
           (\<lambda>axis. [b, i div n, h] ! axis) ! (i mod n) = replicate S (1 / real S) \<and>
         (\<exists>out. mha q k v msk input_mask ''pallas'' interpret q_block_len num_warps num_stages
                  = Inr out \<and>
            elems out ! b ! i ! h ! a =
              (\<Sum>j\<leftarrow>filter (\<lambda>j. msk ! b ! j) [0..<S]. elems v ! b ! j ! h ! a) / real S) \<and>
         (\<exists>out. mha q k v msk input_mask ''reference'' interpret q_block_len num_warps num_stages
                  = Inr out \<and>
            elems out ! b ! i ! h ! a = (\<Sum>j\<leftarrow>[0..<S]. elems v ! b ! j ! h ! a) / real S)"
proof -
  note pa = planner_accepts[OF pl]
  let ?r = "kernel_refs S A n S q k v msk (b, i div n, h)"
  let ?pid = "\<lambda>axis. [b, i div n, h] ! axis"
  note bi = block_index[OF pa(1,2) ix(2)]
  have hm: "mask_has_shape (B, S) msk" using v sh by (simp add: valid_inputs_def)
  have lm: "length (msk ! b) = S" using mask_has_shape_nth[OF hm ix(1)] by simp
  have mr: "mask_ref ?r = msk ! b"
    by (rule kernel_refs_valid(4)[OF v sh ix(1) ix(3) bi(1)])
  have lq: "length (q_ref ?r) = n"
    by (simp add: kernel_refs_valid(1)[OF v sh ix(1) ix(3) bi(1)])
  have sc: "mha_kernel_scores ?r (Some n) ?pid ! (i mod n) = replicate S sentinel"
    unfolding kernel_scores_score_row[OF v sh pa(1,2) ix(1,2,3)]
    by (rule score_row_masked[OF masked])
  have ls: "length (mha_kernel_scores ?r (Some n) ?pid) = n"
    by (rule length_mha_kernel_scores[OF pa(1) lq]) (simp add: mr lm bi(1))
  have w: "softmax_row (replicate S sentinel) = replicate S (1 / real S)"
    by (rule nth_equalityI) (simp_all add: length_softmax_row softmax_row_const[where c=sentinel])
  have pr: "mha_kernel_probs ?r (Some n) ?pid ! (i mod n) = replicate S (1 / real S)"
    using bi(3) ls by (simp add: mha_kernel_probs_def sc w)
  show ?thesis
    unfolding mha_pallas[OF sh pl] mha_reference[OF sh pl]
    using sc pr pallas_masked_row_elem[OF v sh pa(1,2) ix masked, of "dtype q"]
      reference_masked_row_elem[OF v sh ix masked, of False]
    by simp
qed

lemma masked_query_row_uniform_example:
  "mha_kernel_scores (kernel_refs 2 1 1 2 ex2_q ex2_q ex2_v ex2_mask (0, 1, 0)) (Some 1)
     (\<lambda>axis. [0, 1, 0] ! axis) ! 0 = [sentinel, sentinel] \<and>
   mha_kernel_probs (kernel_refs 2 1 1 2 ex2_q ex2_q ex2_v ex2_mask (0, 1, 0)) (Some 1)
     (\<lambda>axis. [0, 1, 0] ! axis) ! 0 = [1 / 2, 1 / 2] \<and>
   (\<exists>out. mha ex2_q ex2_q ex2_v ex2_mask () ''pallas'' False (Some 1) 2 2 = Inr out \<and>
      elems out ! 0 ! 1 ! 0 ! 0 = 0) \<and>
   (\<exists>out. mha ex2_q ex2_q ex2_v ex2_mask () ''reference'' False (Some 1) 2 2 = Inr out \<and>
      elems out ! 0 ! 1 ! 0 ! 0 = 1 / 2)"
proof -
  have sh: "shape ex2_q = (1, 2, 1, 1)" by (simp add: ex2_q_def)
  have fin: "literal_finite (promote_types (dtype ex2_q) (dtype ex2_q))"
    by (simp add: ex2_q_def literal_finite_def)
  have pl: "compute_q_and_kv_block_len 2 (Some 1) = Inr (1, 2)"
    by (simp add: compute_q_and_kv_block_len_def)
  have m: "\<not> ex2_mask ! 0 ! 1" by (simp add: ex2_mask_def)
  have e: "ex2_mask ! 0 = [True, False]" "elems ex2_v = [[[[0]], [[1]]]]"
    by (simp_all add: ex2_mask_def ex2_v_def)
  show ?thesis
    using masked_query_row_uniform[OF valid_inputs_ex2 sh fin pl _ _ _ _ m, of 0 0 "()" False 2 2]
    by (simp add: upt_2 e numeral_2_eq_2)
qed

text \<open>
  C7, as the code has it. On a valid input that the planner accepts, either backend
  returns an output with the shape of \<open>q\<close>, whose elements fill that shape. The output of
  the blocked backend has the dtype of \<open>q\<close>; the output of the reference backend has the
  promoted dtype of \<open>q\<close>, \<open>k\<close> and \<open>v\<close>, which is the dtype of \<open>q\<close> when \<open>k\<close> and \<open>v\<close> have
  it. The arrays are values: \<open>mha\<close> returns a new array and has no access to its arguments
  other than reading them. The only assignment in the source is the one of \<^verbatim>\<open>mha_kernel\<close>
  to its output block; the input blocks of a kernel instance are unchanged by it.
\<close>

theorem mha_preserves_shape_dtype_inputs:
  assumes v: "valid_inputs q k v msk"
    and pl: "compute_q_and_kv_block_len (fst (snd (shape q))) q_block_len = Inr (n, kv_block_len)"
    and kn: "kern = ''pallas'' \<or> kern = ''reference''"
  shows "(\<exists>out. mha q k v msk input_mask kern interpret q_block_len num_warps num_stages = Inr out \<and>
            shape out = shape q \<and> has_shape (shape q) (elems out) \<and>
            dtype out = (if kern = ''pallas'' then dtype q
                         else promote_types (promote_types (dtype q) (dtype k)) (dtype v)) \<and>
            (dtype k = dtype q \<and> dtype v = dtype q \<longrightarrow> dtype out = dtype q)) \<and>
         q_ref (mha_kernel r bl program_id) = q_ref r \<and>
         k_ref (mha_kernel r bl program_id) = k_ref r \<and>
         v_ref (mha_kernel r bl program_id) = v_ref r \<and>
         mask_ref (mha_kernel r bl program_id) = mask_ref r"
proof -
  obtain B S H A where sh: "shape q = (B, S, H, A)" by (cases "shape q") auto
  have pl': "compute_q_and_kv_block_len S q_block_len = Inr (n, kv_block_len)"
    using pl sh by simp
  note pa = planner_accepts[OF pl']
  have shk: "shape k = (B, S, H, A)" and shv: "shape v = (B, S, H, A)"
    using v sh by (simp_all add: valid_inputs_def)
  have "\<exists>out. mha q k v msk input_mask kern interpret q_block_len num_warps num_stages = Inr out \<and>
            shape out = shape q \<and> has_shape (shape q) (elems out) \<and>
            dtype out = (if kern = ''pallas'' then dtype q
                         else promote_types (promote_types (dtype q) (dtype k)) (dtype v)) \<and>
            (dtype k = dtype q \<and> dtype v = dtype q \<longrightarrow> dtype out = dtype q)"
  proof (cases "kern = ''pallas''")
    case True
    show ?thesis
      unfolding True mha_pallas[OF sh pl'] sh
      using has_shape_pallas_call_mha[OF v sh pa(1,2)] by (simp add: pallas_call_mha_props)
  next
    case False
    then have r: "kern = ''reference''" using kn by simp
    show ?thesis
      unfolding r mha_reference[OF sh pl'] sh
      using reference_mha_kernel_props[OF sh shk shv, of msk False]
      by (simp add: promote_types_same has_shape_tab4)
  qed
  then show ?thesis by (simp add: mha_kernel_frame)
qed

theorem mha_preserves_shape_dtype_inputs_witness:
  "(\<exists>out. mha ex4 ex4 ex4 ex4_mask () ''pallas'' False (Some 2) 2 2 = Inr out \<and>
      shape out = (1, 4, 1, 1) \<and> dtype out = Float32 \<and> has_shape (1, 4, 1, 1) (elems out)) \<and>
   (\<exists>out. mha ex4 ex4 ex4 ex4_mask () ''reference'' False (Some 2) 2 2 = Inr out \<and>
      shape out = (1, 4, 1, 1) \<and> dtype out = Float32 \<and> has_shape (1, 4, 1, 1) (elems out))"
proof -
  have pl: "compute_q_and_kv_block_len (fst (snd (shape ex4))) (Some 2) = Inr (2, 4)"
    by (simp add: compute_q_and_kv_block_len_def ex4_def)
  have e: "shape ex4 = (1, 4, 1, 1)" "dtype ex4 = Float32" by (simp_all add: ex4_def)
  have k1: "''pallas'' = ''pallas'' \<or> ''pallas'' = ''reference''" by simp
  have k2: "''reference'' = ''pallas'' \<or> ''reference'' = ''reference''" by simp
  show ?thesis
    using mha_preserves_shape_dtype_inputs[OF valid_inputs_ex4 pl k1, of "()" False 2 2]
          mha_preserves_shape_dtype_inputs[OF valid_inputs_ex4 pl k2, of "()" False 2 2]
    unfolding e by blast
qed

text \<open>
  C7 as stated fails for the reference backend on arrays of different dtypes: with a
  float16 \<open>q\<close> and float32 \<open>k\<close> and \<open>v\<close>, all of one shape, the output is a float32 array.
\<close>

theorem mha_preserves_shape_dtype_inputs_counterexample:
  "valid_inputs ex4_f16 ex4 ex4 ex4_mask \<and>
   dtype ex4_f16 = Float16 \<and>
   mha ex4_f16 ex4 ex4 ex4_mask () ''reference'' False (Some 2) 2 2 =
     Inr (reference_mha_kernel ex4_f16 ex4 ex4 ex4_mask False) \<and>
   dtype (reference_mha_kernel ex4_f16 ex4 ex4 ex4_mask False) = Float32"
proof -
  have sh: "shape ex4_f16 = (1, 4, 1, 1)" "shape ex4 = (1, 4, 1, 1)"
    by (simp_all add: ex4_f16_def ex4_def)
  have pl: "compute_q_and_kv_block_len 4 (Some 2) = Inr (2, 4)"
    by (simp add: compute_q_and_kv_block_len_def)
  have d: "dtype ex4_f16 = Float16" "dtype ex4 = Float32" by (simp_all add: ex4_f16_def ex4_def)
  have m: "mha ex4_f16 ex4 ex4 ex4_mask () ''reference'' False (Some 2) 2 2 =
     Inr (reference_mha_kernel ex4_f16 ex4 ex4 ex4_mask False)"
    by (simp only: mha_reference[OF sh(1) pl])
  have r: "dtype (reference_mha_kernel ex4_f16 ex4 ex4 ex4_mask False) = Float32"
    using reference_mha_kernel_props(2)[OF sh(1) sh(2) sh(2), of ex4_mask False] by (simp add: d)
  show ?thesis using valid_inputs_ex4_f16 d(1) m r by (intro conjI)
qed




text \<open>
  C2, as the code has it. Let position \<open>j\<close> of batch element \<open>b\<close> be masked, and replace
  \<open>K[b, j]\<close> and \<open>V[b, j]\<close> by any rows of the same shape.
  \<^item> The result of the blocked backend does not change.
  \<^item> The result of the reference backend does not change when only \<open>K[b, j]\<close> is replaced.
  \<^item> When \<open>V[b, j]\<close> is replaced too, the output of the reference backend at a valid query
    position \<open>i\<close> of that batch element changes by at most \<open>exp (-1e20 - q\<^sub>i \<cdot> k\<^sub>i)\<close>
    times the change of the value.
\<close>

theorem mask_exclusivity:
  assumes v: "valid_inputs q k v msk" and sh: "shape q = (B, S, H, A)"
    and b: "b < B" and j: "j < S" and masked: "\<not> msk ! b ! j"
    and kr: "length krow = H" "\<forall>u\<in>set krow. length u = A"
    and vr: "length vrow = H" "\<forall>u\<in>set vrow. length u = A"
  shows "mha q (k\<lparr>elems := (elems k)[b := (elems k ! b)[j := krow]]\<rparr>)
             (v\<lparr>elems := (elems v)[b := (elems v ! b)[j := vrow]]\<rparr>) msk
             input_mask ''pallas'' interpret q_block_len num_warps num_stages =
         mha q k v msk input_mask ''pallas'' interpret q_block_len num_warps num_stages \<and>
         mha q (k\<lparr>elems := (elems k)[b := (elems k ! b)[j := krow]]\<rparr>) v msk
             input_mask ''reference'' interpret q_block_len num_warps num_stages =
         mha q k v msk input_mask ''reference'' interpret q_block_len num_warps num_stages \<and>
         (i < S \<and> h < H \<and> a < A \<and> msk ! b ! i \<longrightarrow>
            \<bar>elems (reference_mha_kernel q (k\<lparr>elems := (elems k)[b := (elems k ! b)[j := krow]]\<rparr>)
                      (v\<lparr>elems := (elems v)[b := (elems v ! b)[j := vrow]]\<rparr>) msk False)
               ! b ! i ! h ! a -
             elems (reference_mha_kernel q k v msk False) ! b ! i ! h ! a\<bar> \<le>
            exp (sentinel - (\<Sum>a\<leftarrow>[0..<A]. elems q ! b ! i ! h ! a * elems k ! b ! i ! h ! a)) *
            \<bar>vrow ! h ! a - elems v ! b ! j ! h ! a\<bar>)"
proof -
  let ?k' = "k\<lparr>elems := (elems k)[b := (elems k ! b)[j := krow]]\<rparr>"
  let ?v' = "v\<lparr>elems := (elems v)[b := (elems v ! b)[j := vrow]]\<rparr>"
  have hk: "has_shape (B, S, H, A) (elems k)" and hv: "has_shape (B, S, H, A) (elems v)"
    using v sh by (simp_all add: valid_inputs_def)
  have v'': "valid_inputs q ?k' ?v' msk" by (rule valid_inputs_update[OF v sh b j kr vr])
  have vk: "valid_inputs q ?k' v msk"
    using v sh has_shape_update[OF hk b j kr] by (simp add: valid_inputs_def)
  have vv: "valid_inputs q k ?v' msk"
    using v sh has_shape_update[OF hv b j vr] by (simp add: valid_inputs_def)
  have vkv: "valid_inputs q ?k' ?v' msk" by (rule v'')
  have agk: "elems k ! b' ! j' = elems ?k' ! b' ! j'" if "b' < B" "j' < S" "msk ! b' ! j'" for b' j'
    using update_agree[OF hk b j masked that] by simp
  have agv: "elems v ! b' ! j' = elems ?v' ! b' ! j'" if "b' < B" "j' < S" "msk ! b' ! j'" for b' j'
    using update_agree[OF hv b j masked that] by simp
  have P: "mha q ?k' ?v' msk input_mask ''pallas'' interpret q_block_len num_warps num_stages =
         mha q k v msk input_mask ''pallas'' interpret q_block_len num_warps num_stages"
  proof (cases "compute_q_and_kv_block_len S q_block_len")
    case (Inl e)
    then show ?thesis using sh by (simp add: mha_def)
  next
    case (Inr p)
    obtain n kvl where p: "p = (n, kvl)" by (cases p)
    have pl: "compute_q_and_kv_block_len S q_block_len = Inr (n, kvl)" using Inr p by simp
    note pa = planner_accepts[OF pl]
    have "pallas_call_mha n S (B, S, H, A) (dtype q) q k v msk =
          pallas_call_mha n S (B, S, H, A) (dtype q) q ?k' ?v' msk"
      by (rule pallas_call_mha_cong[OF v v'' sh pa(1,2)]) (simp add: agk agv)
    then show ?thesis by (simp only: mha_pallas[OF sh pl])
  qed
  have Rk: "reference_mha_kernel q ?k' w msk ip = reference_mha_kernel q k w msk ip"
    if "valid_inputs q k w msk" "valid_inputs q ?k' w msk" for w ip
  proof -
    have "reference_mha_kernel q k w msk ip = reference_mha_kernel q ?k' w msk ip"
      by (rule reference_mha_kernel_cong[OF that sh]) (simp_all add: agk)
    then show ?thesis by simp
  qed
  have R: "mha q ?k' v msk input_mask ''reference'' interpret q_block_len num_warps num_stages =
         mha q k v msk input_mask ''reference'' interpret q_block_len num_warps num_stages"
  proof (cases "compute_q_and_kv_block_len S q_block_len")
    case (Inl e)
    then show ?thesis using sh by (simp add: mha_def)
  next
    case (Inr p)
    obtain n kvl where p: "p = (n, kvl)" by (cases p)
    have pl: "compute_q_and_kv_block_len S q_block_len = Inr (n, kvl)" using Inr p by simp
    show ?thesis by (simp only: mha_reference[OF sh pl] Rk[OF v vk])
  qed
  have V: "\<bar>elems (reference_mha_kernel q ?k' ?v' msk False) ! b ! i ! h ! a -
             elems (reference_mha_kernel q k v msk False) ! b ! i ! h ! a\<bar> \<le>
            exp (sentinel - (\<Sum>a\<leftarrow>[0..<A]. elems q ! b ! i ! h ! a * elems k ! b ! i ! h ! a)) *
            \<bar>vrow ! h ! a - elems v ! b ! j ! h ! a\<bar>"
    if "i < S" "h < H" "a < A" "msk ! b ! i"
    unfolding Rk[OF vv vkv]
    by (rule reference_value_influence[OF v sh b j masked vr that])
  show ?thesis using P R V by blast
qed

theorem mask_exclusivity_witness:
  "mha ex4 (ex4\<lparr>elems := (elems ex4)[0 := (elems ex4 ! 0)[2 := [[5]]]]\<rparr>)
       (ex4\<lparr>elems := (elems ex4)[0 := (elems ex4 ! 0)[2 := [[7]]]]\<rparr>) ex4_mask
       () ''pallas'' False (Some 2) 2 2 =
   mha ex4 ex4 ex4 ex4_mask () ''pallas'' False (Some 2) 2 2 \<and>
   mha ex4 (ex4\<lparr>elems := (elems ex4)[0 := (elems ex4 ! 0)[2 := [[5]]]]\<rparr>) ex4 ex4_mask
       () ''reference'' False (Some 2) 2 2 =
   mha ex4 ex4 ex4 ex4_mask () ''reference'' False (Some 2) 2 2 \<and>
   \<bar>elems (reference_mha_kernel ex4 (ex4\<lparr>elems := (elems ex4)[0 := (elems ex4 ! 0)[2 := [[5]]]]\<rparr>)
             (ex4\<lparr>elems := (elems ex4)[0 := (elems ex4 ! 0)[2 := [[7]]]]\<rparr>) ex4_mask False)
      ! 0 ! 1 ! 0 ! 0 -
    elems (reference_mha_kernel ex4 ex4 ex4 ex4_mask False) ! 0 ! 1 ! 0 ! 0\<bar> \<le>
   exp (sentinel - (\<Sum>a\<leftarrow>[0..<1]. elems ex4 ! 0 ! 1 ! 0 ! a * elems ex4 ! 0 ! 1 ! 0 ! a)) *
   \<bar>[[7]] ! 0 ! 0 - elems ex4 ! 0 ! 2 ! 0 ! 0\<bar>"
proof -
  have sh: "shape ex4 = (1, 4, 1, 1)" by (simp add: ex4_def)
  have b: "(0::nat) < 1" and j: "(2::nat) < 4" by simp_all
  have m: "\<not> ex4_mask ! 0 ! 2" by (simp add: ex4_mask_def)
  have kr: "length [[5::real]] = 1" "\<forall>u\<in>set [[5::real]]. length u = 1" by simp_all
  have vr: "length [[7::real]] = 1" "\<forall>u\<in>set [[7::real]]. length u = 1" by simp_all
  have ante: "(1::nat) < 4 \<and> (0::nat) < 1 \<and> (0::nat) < 1 \<and> ex4_mask ! 0 ! 1"
    by (simp add: ex4_mask_def)
  show ?thesis
    using mask_exclusivity[OF valid_inputs_ex4 sh b j m kr vr,
        where i=1 and h=0 and a=0 and input_mask="()"
          and q_block_len="Some 2" and num_warps=2 and num_stages=2] ante
    by blast
qed

text \<open>
  C2 as stated fails for the reference backend at a masked query position: with the mask
  \<open>[True, False]\<close>, replacing the value \<open>0\<close> of the masked position by \<open>1\<close> changes the
  output at that position from \<open>0\<close> to \<open>1 / 2\<close>.
\<close>

theorem mask_exclusivity_counterexample:
  "\<not> ex2_mask ! 0 ! 1 \<and>
   ex2_v = ex2_q\<lparr>elems := (elems ex2_q)[0 := (elems ex2_q ! 0)[1 := [[1]]]]\<rparr> \<and>
   mha ex2_q ex2_q ex2_q ex2_mask () ''reference'' False (Some 1) 2 2 =
     Inr (reference_mha_kernel ex2_q ex2_q ex2_q ex2_mask False) \<and>
   mha ex2_q ex2_q ex2_v ex2_mask () ''reference'' False (Some 1) 2 2 =
     Inr (reference_mha_kernel ex2_q ex2_q ex2_v ex2_mask False) \<and>
   elems (reference_mha_kernel ex2_q ex2_q ex2_q ex2_mask False) ! 0 ! 1 ! 0 ! 0 = 0 \<and>
   elems (reference_mha_kernel ex2_q ex2_q ex2_v ex2_mask False) ! 0 ! 1 ! 0 ! 0 = 1 / 2"
proof -
  have sh: "shape ex2_q = (1, 2, 1, 1)" by (simp add: ex2_q_def)
  have pl: "compute_q_and_kv_block_len 2 (Some 1) = Inr (1, 2)"
    by (simp add: compute_q_and_kv_block_len_def)
  have m: "\<not> ex2_mask ! 0 ! 1" by (simp add: ex2_mask_def)
  have u: "ex2_v = ex2_q\<lparr>elems := (elems ex2_q)[0 := (elems ex2_q ! 0)[1 := [[1]]]]\<rparr>"
    by (simp add: ex2_q_def ex2_v_def)
  have r0: "elems (reference_mha_kernel ex2_q ex2_q ex2_q ex2_mask False) ! 0 ! 1 ! 0 ! 0 = 0"
    using reference_masked_row_elem[OF valid_inputs_ex2_zero sh _ _ _ _ m, of 0 0 False]
    by (simp add: upt_2 ex2_q_def)
  have r1: "elems (reference_mha_kernel ex2_q ex2_q ex2_v ex2_mask False) ! 0 ! 1 ! 0 ! 0 = 1 / 2"
    using reference_masked_row_elem[OF valid_inputs_ex2 sh _ _ _ _ m, of 0 0 False]
    by (simp add: upt_2 ex2_v_def)
  have m0: "mha ex2_q ex2_q ex2_q ex2_mask () ''reference'' False (Some 1) 2 2 =
     Inr (reference_mha_kernel ex2_q ex2_q ex2_q ex2_mask False)"
    by (simp only: mha_reference[OF sh pl])
  have m1: "mha ex2_q ex2_q ex2_v ex2_mask () ''reference'' False (Some 1) 2 2 =
     Inr (reference_mha_kernel ex2_q ex2_q ex2_v ex2_mask False)"
    by (simp only: mha_reference[OF sh pl])
  show ?thesis using m u m0 m1 r0 r1 by (intro conjI)
qed

end
